theory Spec2Isabelle
  imports Complex_Main
begin

section \<open>Data model\<close>

text \<open>
  The renderer exists in two versions: \<^verbatim>\<open>src/src/index.ts\<close> (suffix \<open>_A\<close> below: a
  process-wide asset cache, sequential loads, a text label on drawn cells) and the
  TypeScript of \<^verbatim>\<open>src/unnamed/part_000\<close> (suffix \<open>_B\<close>: no cache, an array of
  promises read by position, no label). JavaScript numbers that hold pixel quantities are
  idealised as \<open>real\<close>; cell numbers and the grid row width are naturals.
\<close>

text \<open>
  Modelled from the spec: the \<^verbatim>\<open>Constants\<close> object of \<^verbatim>\<open>./interfaces/Map\<close> is not
  part of the sources. Its fields are the ones the renderer reads; their values are a
  parameter of every definition below. \<open>MAP_WIDTH\<close> is the grid row width (cells per
  row); for \<open>MAP_WIDTH = 0\<close> JavaScript computes \<open>NaN\<close> and \<open>Infinity\<close>, so the
  theorems about positions assume \<open>0 < MAP_WIDTH\<close>.
\<close>

record Constants =
  WIDTH :: real
  HEIGHT :: real
  MAP_WIDTH :: nat
  CELL_WIDTH :: real
  CELL_HEIGHT :: real
  CELL_HALF_WIDTH :: real
  CELL_HALF_HEIGHT :: real
  CELL_OFFSET :: real
  CELL_DOUBLE_HEIGHT :: real

text \<open>
  Modelled from the spec: the cell interface of \<^verbatim>\<open>./interfaces/Map\<close> is not part of
  the sources. A CellRecord has a non-negative integer \<open>cellNumber\<close> and five boolean
  flags.
\<close>

record Cell =
  cellNumber :: nat
  mov :: bool
  los :: bool
  nonWalkableDuringFight :: bool
  blue :: bool
  red :: bool

text \<open>
  \<^verbatim>\<open>index.ts\<close> reads \<^verbatim>\<open>this.map.mapData.cellsData\<close>, \<^verbatim>\<open>part_000\<close> reads
  \<^verbatim>\<open>this.map.cellsData\<close>.
\<close>

record MapData =
  cellsData :: "Cell list"

record TacticalMap =
  mapData :: MapData

text \<open>
  Modelled from the spec: the options interface of \<^verbatim>\<open>./interfaces/Options\<close> is not
  part of the sources. RenderOptions has a base path and two booleans.
\<close>

record Options =
  assetPath :: string
  displayStartCells :: bool
  addWatermark :: bool

text \<open>A decoded \<^verbatim>\<open>canvas.Image\<close>: where it was decoded from, and its native size.\<close>

record Image =
  src :: string
  width :: real
  height :: real

text \<open>The record \<^verbatim>\<open>loadAssets\<close> returns; the three optional fields may be undefined.\<close>

record Assets =
  high :: Image
  gray :: Image
  purple :: Image
  ally :: "Image option"
  enemy :: "Image option"
  logo :: "Image option"

text \<open>
  The operations performed on one canvas and its 2D context, in the order they are
  performed. The canvas of a render is the list of these operations.
\<close>

datatype draw_op =
    CreateCanvas real real
  | FillStyle string
  | FillRect real real real real
  | DrawImage Image real real real real
  | Font string
  | TextAlign string
  | TextBaseline string
  | FillText string real real

text \<open>The buffer \<^verbatim>\<open>img.toBuffer()\<close> encodes: the canvas after these operations.\<close>

datatype Buffer = Buffer "draw_op list"

section \<open>The grid pass\<close>

text \<open>\<^verbatim>\<open>cellId.toString()\<close> of a non-negative integer: its decimal digits.\<close>

fun toString :: "nat \<Rightarrow> string" where
  "toString n =
     (if n < 10 then [''0123456789'' ! n]
      else toString (n div 10) @ [''0123456789'' ! (n mod 10)])"

declare toString.simps [simp del]

text \<open>
  The screen position of a cell (lines 97-98 of \<^verbatim>\<open>index.ts\<close>, 87-88 of
  \<^verbatim>\<open>part_000\<close>; the two texts are the same).
\<close>

definition cell_x :: "Constants \<Rightarrow> nat \<Rightarrow> real" where
  "cell_x k cellId =
     real (cellId mod MAP_WIDTH k) * CELL_WIDTH k
       + real ((cellId div MAP_WIDTH k) mod 2) * CELL_HALF_WIDTH k"

definition cell_y :: "Constants \<Rightarrow> nat \<Rightarrow> real" where
  "cell_y k cellId = real (cellId div MAP_WIDTH k) * CELL_HALF_HEIGHT k"

subsection \<open>\<^verbatim>\<open>index.ts\<close>: the loop body, one definition for each \<^verbatim>\<open>if\<close>\<close>

text \<open>
  The state of the loop body is the context's operations so far and the local flag
  \<^verbatim>\<open>cellNeedToBeDraw\<close>.
\<close>

definition terrain_A ::
  "Constants \<Rightarrow> Assets \<Rightarrow> Cell \<Rightarrow> nat \<Rightarrow> real \<Rightarrow> real \<Rightarrow> draw_op list \<times> bool \<Rightarrow> draw_op list \<times> bool"
where
  "terrain_A k a c cellCoords_y x y s =
     (if mov c \<and> \<not> nonWalkableDuringFight c
      then (let asset = (if cellCoords_y mod 2 = 0 then gray a else purple a)
            in (fst s @ [DrawImage asset x y (CELL_WIDTH k) (CELL_HEIGHT k)], True))
      else s)"

definition los_A ::
  "Constants \<Rightarrow> Assets \<Rightarrow> Cell \<Rightarrow> real \<Rightarrow> real \<Rightarrow> draw_op list \<times> bool \<Rightarrow> draw_op list \<times> bool"
where
  "los_A k a c x y s =
     (if \<not> los c \<and> \<not> nonWalkableDuringFight c
      then (fst s @ [DrawImage (high a) x (y + CELL_OFFSET k) (CELL_WIDTH k) (CELL_DOUBLE_HEIGHT k)],
            snd s)
      else s)"

definition ally_A ::
  "Constants \<Rightarrow> Options \<Rightarrow> Assets \<Rightarrow> Cell \<Rightarrow> real \<Rightarrow> real \<Rightarrow> draw_op list \<times> bool \<Rightarrow> draw_op list \<times> bool"
where
  "ally_A k opts a c x y s =
     (if blue c \<and> ally a \<noteq> None \<and> displayStartCells opts
      then (fst s @ [DrawImage (the (ally a)) x (y + CELL_OFFSET k) (CELL_WIDTH k) (CELL_DOUBLE_HEIGHT k)],
            True)
      else s)"

definition enemy_A ::
  "Constants \<Rightarrow> Options \<Rightarrow> Assets \<Rightarrow> Cell \<Rightarrow> real \<Rightarrow> real \<Rightarrow> draw_op list \<times> bool \<Rightarrow> draw_op list \<times> bool"
where
  "enemy_A k opts a c x y s =
     (if red c \<and> enemy a \<noteq> None \<and> displayStartCells opts
      then (fst s @ [DrawImage (the (enemy a)) x (y + CELL_OFFSET k) (CELL_WIDTH k) (CELL_DOUBLE_HEIGHT k)],
            True)
      else s)"

definition label_A ::
  "Constants \<Rightarrow> nat \<Rightarrow> real \<Rightarrow> real \<Rightarrow> draw_op list \<times> bool \<Rightarrow> draw_op list"
where
  "label_A k cellId x y s =
     (if snd s
      then fst s @
        [FillStyle ''white'', Font ''12px Arial'', TextAlign ''center'', TextBaseline ''middle'',
         FillText (toString cellId) (x + CELL_WIDTH k / 2) (y + CELL_HEIGHT k / 2)]
      else fst s)"

definition cell_A :: "Constants \<Rightarrow> Options \<Rightarrow> Assets \<Rightarrow> Cell \<Rightarrow> draw_op list \<Rightarrow> draw_op list" where
  "cell_A k opts a c ctx =
     (let cellId = cellNumber c;
          cellCoords_y = cellId div MAP_WIDTH k;
          x = cell_x k cellId;
          y = cell_y k cellId;
          cellNeedToBeDraw = False;
          s1 = terrain_A k a c cellCoords_y x y (ctx, cellNeedToBeDraw);
          s2 = los_A k a c x y s1;
          s3 = ally_A k opts a c x y s2;
          s4 = enemy_A k opts a c x y s3
      in label_A k cellId x y s4)"

definition grid_A :: "Constants \<Rightarrow> Options \<Rightarrow> Assets \<Rightarrow> TacticalMap \<Rightarrow> draw_op list \<Rightarrow> draw_op list" where
  "grid_A k opts a m ctx = fold (cell_A k opts a) (cellsData (mapData m)) ctx"

subsection \<open>\<^verbatim>\<open>part_000\<close>: the loop body\<close>

definition terrain_B ::
  "Constants \<Rightarrow> Assets \<Rightarrow> Cell \<Rightarrow> nat \<Rightarrow> real \<Rightarrow> real \<Rightarrow> draw_op list \<Rightarrow> draw_op list"
where
  "terrain_B k a c cellCoords_y x y ctx =
     (if mov c \<and> \<not> nonWalkableDuringFight c
      then (let asset = (if cellCoords_y mod 2 = 0 then gray a else purple a)
            in ctx @ [DrawImage asset x y (CELL_WIDTH k) (CELL_HEIGHT k)])
      else ctx)"

definition los_B ::
  "Constants \<Rightarrow> Assets \<Rightarrow> Cell \<Rightarrow> real \<Rightarrow> real \<Rightarrow> draw_op list \<Rightarrow> draw_op list"
where
  "los_B k a c x y ctx =
     (if \<not> los c \<and> \<not> nonWalkableDuringFight c
      then ctx @ [DrawImage (high a) x (y + CELL_OFFSET k) (CELL_WIDTH k) (CELL_DOUBLE_HEIGHT k)]
      else ctx)"

definition start_B ::
  "Constants \<Rightarrow> Options \<Rightarrow> Assets \<Rightarrow> Cell \<Rightarrow> real \<Rightarrow> real \<Rightarrow> draw_op list \<Rightarrow> draw_op list"
where
  "start_B k opts a c x y ctx =
     (if displayStartCells opts
      then (let ctx1 = (if blue c \<and> ally a \<noteq> None
                        then ctx @ [DrawImage (the (ally a)) x (y + CELL_OFFSET k)
                                      (CELL_WIDTH k) (CELL_DOUBLE_HEIGHT k)]
                        else ctx)
            in (if red c \<and> enemy a \<noteq> None
                then ctx1 @ [DrawImage (the (enemy a)) x (y + CELL_OFFSET k)
                               (CELL_WIDTH k) (CELL_DOUBLE_HEIGHT k)]
                else ctx1))
      else ctx)"

definition cell_B :: "Constants \<Rightarrow> Options \<Rightarrow> Assets \<Rightarrow> Cell \<Rightarrow> draw_op list \<Rightarrow> draw_op list" where
  "cell_B k opts a c ctx =
     (let cellId = cellNumber c;
          cellCoords_y = cellId div MAP_WIDTH k;
          x = cell_x k cellId;
          y = cell_y k cellId;
          ctx1 = terrain_B k a c cellCoords_y x y ctx;
          ctx2 = los_B k a c x y ctx1
      in start_B k opts a c x y ctx2)"

definition grid_B :: "Constants \<Rightarrow> Options \<Rightarrow> Assets \<Rightarrow> MapData \<Rightarrow> draw_op list \<Rightarrow> draw_op list" where
  "grid_B k opts a m ctx = fold (cell_B k opts a) (cellsData m) ctx"

subsection \<open>The watermark (\<^verbatim>\<open>addWatermark\<close>, the same text in both versions)\<close>

definition addWatermark_draw :: "Constants \<Rightarrow> Image \<Rightarrow> draw_op list \<Rightarrow> draw_op list" where
  "addWatermark_draw k asset ctx =
     (let assetWidth = min 100 (width asset);
          assetHeight = min 100 (height asset);
          margin = 10;
          xPos = WIDTH k - assetWidth - margin;
          yPos = HEIGHT k - assetHeight - margin
      in ctx @ [DrawImage asset xPos yPos assetWidth assetHeight])"

text \<open>The last statement of \<^verbatim>\<open>render\<close> before \<^verbatim>\<open>toBuffer\<close>, the same in both versions.\<close>

definition watermark_step :: "Constants \<Rightarrow> Options \<Rightarrow> Assets \<Rightarrow> draw_op list \<Rightarrow> draw_op list" where
  "watermark_step k opts a ctx =
     (if addWatermark opts \<and> logo a \<noteq> None then addWatermark_draw k (the (logo a)) ctx else ctx)"

text \<open>The canvas before the grid pass: created, then filled black.\<close>

definition canvas_init :: "Constants \<Rightarrow> draw_op list" where
  "canvas_init k =
     [CreateCanvas (WIDTH k) (HEIGHT k), FillStyle ''black'', FillRect 0 0 (WIDTH k) (HEIGHT k)]"

section \<open>Loading the assets\<close>

text \<open>
  What the renderer does outside the canvas and on it, in the order it happens: a call of
  \<^verbatim>\<open>canvas.loadImage\<close> on a path (the load is issued), an \<^verbatim>\<open>await\<close> on the promise of a
  path that completes (resolved with an image, or rejected), and an operation on the
  canvas of the render.
\<close>

datatype event =
    LoadImage string
  | Resolved string
  | Rejected string
  | Canvas draw_op

text \<open>
  \<open>AssetLoadError p\<close>: \<^verbatim>\<open>loadImage\<close> rejected for the path \<open>p\<close>. \<open>MissingAsset key\<close>: one of
  the three fields typed as always present would be undefined; the loaders never return
  it (\<open>loadAssets_A_result\<close> and \<open>loadAssets_B_result\<close> below).
\<close>

datatype error =
    AssetLoadError string
  | MissingAsset string

text \<open>
  The decoder \<^verbatim>\<open>canvas.loadImage\<close> is a parameter: \<open>decode p = None\<close> when the file at
  \<open>p\<close> is missing or corrupt.
\<close>

type_synonym decoder = "string \<Rightarrow> Image option"

text \<open>
  \<^verbatim>\<open>Object.entries(assets)\<close>: the keys in insertion order, each with its logical name.
\<close>

definition assets_entries :: "Options \<Rightarrow> (string \<times> string) list" where
  "assets_entries opts =
     [(''high'', ''areaUnitHigh''), (''gray'', ''grayCell''), (''purple'', ''purpleCell'')]
     @ (if displayStartCells opts
        then [(''ally'', ''areaUnitAlly''), (''enemy'', ''areaUnitEnemy'')] else [])
     @ (if addWatermark opts then [(''logo'', ''E-bou'')] else [])"

text \<open>The template literal \<^verbatim>\<open>`${this.options.assetPath}/${value}.png`\<close>.\<close>

definition asset_path :: "Options \<Rightarrow> string \<Rightarrow> string" where
  "asset_path opts v = assetPath opts @ ''/'' @ v @ ''.png''"

text \<open>The returned object literal: three fields typed as present, three optional.\<close>

definition assets_record ::
  "Image option \<Rightarrow> Image option \<Rightarrow> Image option \<Rightarrow> Image option \<Rightarrow> Image option \<Rightarrow> Image option
     \<Rightarrow> error + Assets"
where
  "assets_record h g p al en lg =
     (case h of None \<Rightarrow> Inl (MissingAsset ''high'') | Some h' \<Rightarrow>
       (case g of None \<Rightarrow> Inl (MissingAsset ''gray'') | Some g' \<Rightarrow>
         (case p of None \<Rightarrow> Inl (MissingAsset ''purple'') | Some p' \<Rightarrow>
            Inr \<lparr>high = h', gray = g', purple = p', ally = al, enemy = en, logo = lg\<rparr>)))"

subsection \<open>\<^verbatim>\<open>index.ts\<close>: a process-wide cache, one load at a time\<close>

text \<open>
  The state outside one render: the module-level \<^verbatim>\<open>assetsCache\<close> and the events so far.
\<close>

record world =
  assetsCache :: "string \<rightharpoonup> Image"
  trace :: "event list"

text \<open>
  The \<^verbatim>\<open>for\<close> loop of \<^verbatim>\<open>loadAssets\<close> (lines 48-58): \<open>loaded\<close> is \<^verbatim>\<open>loadedAssets\<close>. A
  rejected \<^verbatim>\<open>await\<close> leaves the loop and the function.
\<close>

fun load_loop_A ::
  "decoder \<Rightarrow> Options \<Rightarrow> (string \<times> string) list \<Rightarrow> (string \<rightharpoonup> Image) \<Rightarrow> world
     \<Rightarrow> world \<times> (error + (string \<rightharpoonup> Image))"
where
  "load_loop_A decode opts [] loaded w = (w, Inr loaded)"
| "load_loop_A decode opts ((key, v) # rest) loaded w =
     (let assetPath = asset_path opts v in
      case assetsCache w assetPath of
        Some cached \<Rightarrow> load_loop_A decode opts rest (loaded(key \<mapsto> cached)) w
      | None \<Rightarrow>
         (case decode assetPath of
            None \<Rightarrow>
              (w\<lparr>trace := trace w @ [LoadImage assetPath, Rejected assetPath]\<rparr>,
               Inl (AssetLoadError assetPath))
          | Some img \<Rightarrow>
              load_loop_A decode opts rest (loaded(key \<mapsto> img))
                (w\<lparr>assetsCache := (assetsCache w)(assetPath \<mapsto> img),
                   trace := trace w @ [LoadImage assetPath, Resolved assetPath]\<rparr>)))"

definition loadAssets_A :: "decoder \<Rightarrow> Options \<Rightarrow> world \<Rightarrow> world \<times> (error + Assets)" where
  "loadAssets_A decode opts w =
     (case load_loop_A decode opts (assets_entries opts) Map.empty w of
        (w', Inl e) \<Rightarrow> (w', Inl e)
      | (w', Inr loadedAssets) \<Rightarrow>
          (w', assets_record (loadedAssets ''high'') (loadedAssets ''gray'') (loadedAssets ''purple'')
                 (loadedAssets ''ally'') (loadedAssets ''enemy'') (loadedAssets ''logo'')))"

text \<open>
  \<^verbatim>\<open>render\<close> (lines 80-140), the whole of it: the assets are loaded first; a rejected load
  leaves the function before the canvas exists. The canvas operations of the render are
  added to the events, and the buffer is the encoding of that canvas.
\<close>

definition render_A ::
  "Constants \<Rightarrow> decoder \<Rightarrow> TacticalMap \<Rightarrow> Options \<Rightarrow> world \<Rightarrow> world \<times> (error + Buffer)"
where
  "render_A k decode m opts w =
     (case loadAssets_A decode opts w of
        (w', Inl e) \<Rightarrow> (w', Inl e)
      | (w', Inr assets) \<Rightarrow>
          (let ctx = watermark_step k opts assets (grid_A k opts assets m (canvas_init k))
           in (w'\<lparr>trace := trace w' @ map Canvas ctx\<rparr>, Inr (Buffer ctx))))"

subsection \<open>\<^verbatim>\<open>part_000\<close>: no cache, an array of promises read by position\<close>

text \<open>
  \<^verbatim>\<open>await promises[i]\<close>: past the end of the array the value is undefined and the
  \<^verbatim>\<open>await\<close> yields undefined; otherwise it yields what the load of that path gives, or
  throws.
\<close>

definition await_B ::
  "decoder \<Rightarrow> string list \<Rightarrow> nat \<Rightarrow> event list \<Rightarrow> event list \<times> (error + Image option)"
where
  "await_B decode promises i tr =
     (if i < length promises
      then (case decode (promises ! i) of
              None \<Rightarrow> (tr @ [Rejected (promises ! i)], Inl (AssetLoadError (promises ! i)))
            | Some img \<Rightarrow> (tr @ [Resolved (promises ! i)], Inr (Some img)))
      else (tr, Inr None))"

text \<open>Sequencing: a thrown error ends the function, a value goes on with the events so far.\<close>

definition and_then ::
  "'s \<times> (error + 'a) \<Rightarrow> ('a \<Rightarrow> 's \<Rightarrow> 's \<times> (error + 'b)) \<Rightarrow> 's \<times> (error + 'b)"
where
  "and_then r f = (case snd r of Inl e \<Rightarrow> (fst r, Inl e) | Inr v \<Rightarrow> f v (fst r))"

text \<open>
  The \<^verbatim>\<open>return\<close> statement of \<^verbatim>\<open>loadAssets\<close> (lines 50-57): six awaits, at the
  positions 0 to 5 of the array, in the order of the object literal.
\<close>

definition await_positions ::
  "decoder \<Rightarrow> string list \<Rightarrow> event list \<Rightarrow> event list \<times> (error + Assets)"
where
  "await_positions decode promises tr0 =
     and_then (await_B decode promises 0 tr0) (\<lambda>h tr1.
     and_then (await_B decode promises 1 tr1) (\<lambda>g tr2.
     and_then (await_B decode promises 2 tr2) (\<lambda>p tr3.
     and_then (await_B decode promises 3 tr3) (\<lambda>al tr4.
     and_then (await_B decode promises 4 tr4) (\<lambda>en tr5.
     and_then (await_B decode promises 5 tr5) (\<lambda>lg tr6.
       (tr6, assets_record h g p al en lg)))))))"

text \<open>
  \<^verbatim>\<open>loadAssets\<close>: every entry's load is issued when its promise is pushed (lines 46-48),
  then the promises are awaited by position.
\<close>

definition loadAssets_B :: "decoder \<Rightarrow> Options \<Rightarrow> event list \<Rightarrow> event list \<times> (error + Assets)" where
  "loadAssets_B decode opts tr =
     (let promises = map (\<lambda>(key, v). asset_path opts v) (assets_entries opts);
          tr0 = tr @ map LoadImage promises
      in await_positions decode promises tr0)"

text \<open>\<^verbatim>\<open>render\<close> (lines 70-116), with the same steps.\<close>

definition render_B ::
  "Constants \<Rightarrow> decoder \<Rightarrow> MapData \<Rightarrow> Options \<Rightarrow> event list \<Rightarrow> event list \<times> (error + Buffer)"
where
  "render_B k decode m opts tr =
     (case loadAssets_B decode opts tr of
        (tr', Inl e) \<Rightarrow> (tr', Inl e)
      | (tr', Inr assets) \<Rightarrow>
          (let ctx = watermark_step k opts assets (grid_B k opts assets m (canvas_init k))
           in (tr' @ map Canvas ctx, Inr (Buffer ctx))))"

section \<open>Definitions used to state the properties\<close>

subsection \<open>The grid position as the specification words it\<close>

definition row :: "Constants \<Rightarrow> Cell \<Rightarrow> nat" where
  "row k c = cellNumber c div MAP_WIDTH k"

definition col :: "Constants \<Rightarrow> Cell \<Rightarrow> nat" where
  "col k c = cellNumber c mod MAP_WIDTH k"

definition screenX :: "Constants \<Rightarrow> Cell \<Rightarrow> real" where
  "screenX k c = real (col k c) * CELL_WIDTH k + real (row k c mod 2) * CELL_HALF_WIDTH k"

definition screenY :: "Constants \<Rightarrow> Cell \<Rightarrow> real" where
  "screenY k c = real (row k c) * CELL_HALF_HEIGHT k"

text \<open>
  The start-zone overlays of step 3c of the specification and, for \<^verbatim>\<open>index.ts\<close>, the
  cell-number label of step 4, written out at the cell's screen position.
\<close>

definition start_zone_overlays :: "Constants \<Rightarrow> Options \<Rightarrow> Assets \<Rightarrow> Cell \<Rightarrow> draw_op list" where
  "start_zone_overlays k opts a c =
     (if displayStartCells opts
      then (if blue c \<and> ally a \<noteq> None
            then [DrawImage (the (ally a)) (screenX k c) (screenY k c + CELL_OFFSET k)
                    (CELL_WIDTH k) (CELL_DOUBLE_HEIGHT k)]
            else [])
         @ (if red c \<and> enemy a \<noteq> None
            then [DrawImage (the (enemy a)) (screenX k c) (screenY k c + CELL_OFFSET k)
                    (CELL_WIDTH k) (CELL_DOUBLE_HEIGHT k)]
            else [])
      else [])"

definition cell_number_label :: "Constants \<Rightarrow> Options \<Rightarrow> Assets \<Rightarrow> Cell \<Rightarrow> draw_op list" where
  "cell_number_label k opts a c =
     (if (mov c \<and> \<not> nonWalkableDuringFight c)
         \<or> (blue c \<and> ally a \<noteq> None \<and> displayStartCells opts)
         \<or> (red c \<and> enemy a \<noteq> None \<and> displayStartCells opts)
      then [FillStyle ''white'', Font ''12px Arial'', TextAlign ''center'', TextBaseline ''middle'',
            FillText (toString (cellNumber c))
              (screenX k c + CELL_WIDTH k / 2) (screenY k c + CELL_HEIGHT k / 2)]
      else [])"

subsection \<open>What each \<^verbatim>\<open>if\<close> of the loop body appends for a cell\<close>

text \<open>
  Each statement of the loop body is run on an empty context, with the arguments the
  loop body passes to it.
\<close>

definition terrain_ops_A :: "Constants \<Rightarrow> Assets \<Rightarrow> Cell \<Rightarrow> draw_op list" where
  "terrain_ops_A k a c =
     fst (terrain_A k a c (cellNumber c div MAP_WIDTH k)
            (cell_x k (cellNumber c)) (cell_y k (cellNumber c)) ([], False))"

definition los_ops_A :: "Constants \<Rightarrow> Assets \<Rightarrow> Cell \<Rightarrow> draw_op list" where
  "los_ops_A k a c =
     fst (los_A k a c (cell_x k (cellNumber c)) (cell_y k (cellNumber c)) ([], False))"

definition ally_ops_A :: "Constants \<Rightarrow> Options \<Rightarrow> Assets \<Rightarrow> Cell \<Rightarrow> draw_op list" where
  "ally_ops_A k opts a c =
     fst (ally_A k opts a c (cell_x k (cellNumber c)) (cell_y k (cellNumber c)) ([], False))"

definition enemy_ops_A :: "Constants \<Rightarrow> Options \<Rightarrow> Assets \<Rightarrow> Cell \<Rightarrow> draw_op list" where
  "enemy_ops_A k opts a c =
     fst (enemy_A k opts a c (cell_x k (cellNumber c)) (cell_y k (cellNumber c)) ([], False))"

text \<open>The value of \<^verbatim>\<open>cellNeedToBeDraw\<close> when the loop body reaches the label.\<close>

definition flag_A :: "Constants \<Rightarrow> Options \<Rightarrow> Assets \<Rightarrow> Cell \<Rightarrow> bool" where
  "flag_A k opts a c =
     (let x = cell_x k (cellNumber c); y = cell_y k (cellNumber c)
      in snd (enemy_A k opts a c x y (ally_A k opts a c x y (los_A k a c x y
           (terrain_A k a c (cellNumber c div MAP_WIDTH k) x y ([], False))))))"

definition label_ops_A :: "Constants \<Rightarrow> Options \<Rightarrow> Assets \<Rightarrow> Cell \<Rightarrow> draw_op list" where
  "label_ops_A k opts a c =
     label_A k (cellNumber c) (cell_x k (cellNumber c)) (cell_y k (cellNumber c))
       ([], flag_A k opts a c)"

definition terrain_ops_B :: "Constants \<Rightarrow> Assets \<Rightarrow> Cell \<Rightarrow> draw_op list" where
  "terrain_ops_B k a c =
     terrain_B k a c (cellNumber c div MAP_WIDTH k)
       (cell_x k (cellNumber c)) (cell_y k (cellNumber c)) []"

definition los_ops_B :: "Constants \<Rightarrow> Assets \<Rightarrow> Cell \<Rightarrow> draw_op list" where
  "los_ops_B k a c = los_B k a c (cell_x k (cellNumber c)) (cell_y k (cellNumber c)) []"

definition start_ops_B :: "Constants \<Rightarrow> Options \<Rightarrow> Assets \<Rightarrow> Cell \<Rightarrow> draw_op list" where
  "start_ops_B k opts a c =
     start_B k opts a c (cell_x k (cellNumber c)) (cell_y k (cellNumber c)) []"

text \<open>The positions of the images drawn, in the order they are drawn.\<close>

fun draw_positions :: "draw_op list \<Rightarrow> (real \<times> real) list" where
  "draw_positions [] = []"
| "draw_positions (DrawImage i x y w h # ops) = (x, y) # draw_positions ops"
| "draw_positions (_ # ops) = draw_positions ops"

subsection \<open>The loads of a render\<close>

definition entry_paths :: "Options \<Rightarrow> (string \<times> string) list \<Rightarrow> string list" where
  "entry_paths opts es = map (\<lambda>(key, v). asset_path opts v) es"

text \<open>The resolved paths a render with these options requires, in the order of the entries.\<close>

definition asset_paths :: "Options \<Rightarrow> string list" where
  "asset_paths opts = entry_paths opts (assets_entries opts)"

fun is_canvas :: "event \<Rightarrow> bool" where
  "is_canvas (Canvas op) = True"
| "is_canvas _ = False"

fun is_load :: "event \<Rightarrow> bool" where
  "is_load (LoadImage p) = True"
| "is_load _ = False"

fun is_settled :: "event \<Rightarrow> bool" where
  "is_settled (Resolved p) = True"
| "is_settled (Rejected p) = True"
| "is_settled _ = False"

text \<open>
  Loads issued concurrently: no load is issued after an \<^verbatim>\<open>await\<close> has completed.
\<close>

fun issued_concurrently :: "event list \<Rightarrow> bool" where
  "issued_concurrently [] = True"
| "issued_concurrently (LoadImage p # es) = issued_concurrently es"
| "issued_concurrently (e # es) = (filter is_load es = [])"

text \<open>
  Every load that was issued has been awaited to its end: resolved or rejected.
\<close>

definition all_awaited :: "event list \<Rightarrow> bool" where
  "all_awaited tr =
     list_all (\<lambda>e. case e of
                   LoadImage p \<Rightarrow> Resolved p \<in> set tr \<or> Rejected p \<in> set tr
                 | _ \<Rightarrow> True) tr"

text \<open>
  Loads one at a time: every load is followed at once by the completion of its own
  \<^verbatim>\<open>await\<close>, and nothing follows a rejection.
\<close>

fun one_at_a_time :: "event list \<Rightarrow> bool" where
  "one_at_a_time [] = True"
| "one_at_a_time (LoadImage p # Resolved q # es) = (p = q \<and> one_at_a_time es)"
| "one_at_a_time (LoadImage p # Rejected q # es) = (p = q \<and> es = [])"
| "one_at_a_time es = False"

text \<open>
  Loading a list of paths one by one, in the order of the list: each load is issued and
  its \<^verbatim>\<open>await\<close> ends before the next is issued; the first rejection is the last event.
\<close>

fun one_by_one :: "decoder \<Rightarrow> string list \<Rightarrow> event list" where
  "one_by_one d [] = []"
| "one_by_one d (p # ps) =
     (case d p of
        None \<Rightarrow> [LoadImage p, Rejected p]
      | Some img \<Rightarrow> LoadImage p # Resolved p # one_by_one d ps)"

text \<open>The paths of a list that the cache of a world does not hold.\<close>

definition uncached :: "world \<Rightarrow> string list \<Rightarrow> string list" where
  "uncached w ps = filter (\<lambda>p. assetsCache w p = None) ps"

text \<open>Awaiting a list of promises in order, up to the first rejection.\<close>

fun await_list :: "decoder \<Rightarrow> string list \<Rightarrow> event list \<times> (error + Image list)" where
  "await_list d [] = ([], Inr [])"
| "await_list d (p # ps) =
     (case d p of
        None \<Rightarrow> ([Rejected p], Inl (AssetLoadError p))
      | Some img \<Rightarrow>
         (Resolved p # fst (await_list d ps),
          (case snd (await_list d ps) of Inl e \<Rightarrow> Inl e | Inr imgs \<Rightarrow> Inr (img # imgs))))"

definition nth_opt :: "'a list \<Rightarrow> nat \<Rightarrow> 'a option" where
  "nth_opt xs i = (if i < length xs then Some (xs ! i) else None)"

definition awaited ::
  "decoder \<Rightarrow> string list \<Rightarrow> event list \<Rightarrow> event list \<times> (error + Assets)" where
  "awaited d ps tr =
     (tr @ fst (await_list d ps),
      (case snd (await_list d ps) of
         Inl e \<Rightarrow> Inl e
       | Inr imgs \<Rightarrow> assets_record (nth_opt imgs 0) (nth_opt imgs 1) (nth_opt imgs 2)
                      (nth_opt imgs 3) (nth_opt imgs 4) (nth_opt imgs 5)))"

text \<open>The world after a load that was not cached has resolved (lines 54-55).\<close>

definition resolved_world :: "world \<Rightarrow> string \<Rightarrow> Image \<Rightarrow> world" where
  "resolved_world w p img =
     w\<lparr>assetsCache := (assetsCache w)(p \<mapsto> img), trace := trace w @ [LoadImage p, Resolved p]\<rparr>"


subsection \<open>Concrete inputs\<close>

text \<open>Sample geometry: a canvas of 1247 by 881, rows of 14 cells of 86 by 43.\<close>

definition example_constants :: Constants where
  "example_constants =
     \<lparr>WIDTH = 1247, HEIGHT = 881, MAP_WIDTH = 14, CELL_WIDTH = 86, CELL_HEIGHT = 43,
      CELL_HALF_WIDTH = 43, CELL_HALF_HEIGHT = 43 / 2, CELL_OFFSET = - (43 / 2),
      CELL_DOUBLE_HEIGHT = 86\<rparr>"

definition example_image :: "string \<Rightarrow> Image" where
  "example_image p = \<lparr>src = p, width = 128, height = 64\<rparr>"

text \<open>Every file decodes.\<close>

definition example_decoder :: decoder where
  "example_decoder p = Some (example_image p)"

text \<open>Every file decodes but the line-of-sight overlay.\<close>

definition missing_high_decoder :: decoder where
  "missing_high_decoder p =
     (if p = ''assets/areaUnitHigh.png'' then None else Some (example_image p))"



definition watermark_only :: Options where
  "watermark_only = \<lparr>assetPath = ''assets'', displayStartCells = False, addWatermark = True\<rparr>"

definition full_options :: Options where
  "full_options = \<lparr>assetPath = ''assets'', displayStartCells = True, addWatermark = True\<rparr>"

definition plain_options :: Options where
  "plain_options = \<lparr>assetPath = ''assets'', displayStartCells = False, addWatermark = False\<rparr>"

definition empty_world :: world where
  "empty_world = \<lparr>assetsCache = Map.empty, trace = []\<rparr>"

text \<open>A world in which an earlier render has cached the gray tile.\<close>

definition gray_cached_world :: world where
  "gray_cached_world =
     \<lparr>assetsCache = [''assets/grayCell.png'' \<mapsto> example_image ''assets/grayCell.png''],
      trace = []\<rparr>"

definition example_assets :: Assets where
  "example_assets =
     \<lparr>high = example_image ''high'', gray = example_image ''gray'',
      purple = example_image ''purple'', ally = Some (example_image ''ally''),
      enemy = None, logo = Some (example_image ''logo'')\<rparr>"

text \<open>Cell 15 is the second cell of row 1, an odd row.\<close>

definition example_cell :: Cell where
  "example_cell =
     \<lparr>cellNumber = 15, mov = True, los = False, nonWalkableDuringFight = False,
      blue = True, red = False\<rparr>"

text \<open>The cell of the specification's end-to-end example.\<close>

definition origin_cell :: Cell where
  "origin_cell =
     \<lparr>cellNumber = 0, mov = True, los = True, nonWalkableDuringFight = False,
      blue = False, red = False\<rparr>"

definition blocked_cell :: Cell where
  "blocked_cell =
     \<lparr>cellNumber = 15, mov = True, los = False, nonWalkableDuringFight = True,
      blue = False, red = False\<rparr>"

definition example_map :: TacticalMap where
  "example_map = \<lparr>mapData = \<lparr>cellsData = [example_cell]\<rparr>\<rparr>"

definition empty_map :: TacticalMap where
  "empty_map = \<lparr>mapData = \<lparr>cellsData = []\<rparr>\<rparr>"

text \<open>What \<open>example_decoder\<close> gives for the six assets under \<^verbatim>\<open>assets\<close>.\<close>

definition loaded_assets :: Assets where
  "loaded_assets =
     \<lparr>high = example_image ''assets/areaUnitHigh.png'',
      gray = example_image ''assets/grayCell.png'',
      purple = example_image ''assets/purpleCell.png'',
      ally = Some (example_image ''assets/areaUnitAlly.png''),
      enemy = Some (example_image ''assets/areaUnitEnemy.png''),
      logo = Some (example_image ''assets/E-bou.png'')\<rparr>"

text \<open>The same decoder, four assets, read by position: the logo sits in \<open>ally\<close>.\<close>

definition misplaced_assets :: Assets where
  "misplaced_assets =
     \<lparr>high = example_image ''assets/areaUnitHigh.png'',
      gray = example_image ''assets/grayCell.png'',
      purple = example_image ''assets/purpleCell.png'',
      ally = Some (example_image ''assets/E-bou.png''),
      enemy = None,
      logo = None\<rparr>"

text \<open>The same decoder, the three assets every render requires.\<close>

definition plain_assets :: Assets where
  "plain_assets =
     \<lparr>high = example_image ''assets/areaUnitHigh.png'',
      gray = example_image ''assets/grayCell.png'',
      purple = example_image ''assets/purpleCell.png'',
      ally = None,
      enemy = None,
      logo = None\<rparr>"

section \<open>The grid pass: what is drawn for a cell, where, and in what order\<close>

lemma terrain_A_fst:
  "fst (terrain_A k a c (cellNumber c div MAP_WIDTH k) (cell_x k (cellNumber c))
          (cell_y k (cellNumber c)) s) = fst s @ terrain_ops_A k a c"
  by (simp add: terrain_ops_A_def terrain_A_def)

lemma los_A_fst:
  "fst (los_A k a c (cell_x k (cellNumber c)) (cell_y k (cellNumber c)) s) = fst s @ los_ops_A k a c"
  by (simp add: los_ops_A_def los_A_def)

lemma ally_A_fst:
  "fst (ally_A k opts a c (cell_x k (cellNumber c)) (cell_y k (cellNumber c)) s)
     = fst s @ ally_ops_A k opts a c"
  by (simp add: ally_ops_A_def ally_A_def)

lemma enemy_A_fst:
  "fst (enemy_A k opts a c (cell_x k (cellNumber c)) (cell_y k (cellNumber c)) s)
     = fst s @ enemy_ops_A k opts a c"
  by (simp add: enemy_ops_A_def enemy_A_def)

lemma terrain_A_snd:
  "snd (terrain_A k a c cy x y s) = (snd s \<or> (mov c \<and> \<not> nonWalkableDuringFight c))"
  by (auto simp: terrain_A_def)

lemma los_A_snd: "snd (los_A k a c x y s) = snd s"
  by (simp add: los_A_def)

lemma ally_A_snd:
  "snd (ally_A k opts a c x y s) = (snd s \<or> (blue c \<and> ally a \<noteq> None \<and> displayStartCells opts))"
  by (auto simp: ally_A_def)

lemma enemy_A_snd:
  "snd (enemy_A k opts a c x y s) = (snd s \<or> (red c \<and> enemy a \<noteq> None \<and> displayStartCells opts))"
  by (auto simp: enemy_A_def)

lemma label_A_app: "label_A k n x y s = fst s @ label_A k n x y ([], snd s)"
  by (simp add: label_A_def)

lemma flag_A_eq:
  "flag_A k opts a c =
     ((mov c \<and> \<not> nonWalkableDuringFight c)
      \<or> (blue c \<and> ally a \<noteq> None \<and> displayStartCells opts)
      \<or> (red c \<and> enemy a \<noteq> None \<and> displayStartCells opts))"
  unfolding flag_A_def Let_def enemy_A_snd ally_A_snd los_A_snd terrain_A_snd by simp

lemma cell_A_layers:
  "cell_A k opts a c ctx =
     ctx @ terrain_ops_A k a c @ los_ops_A k a c @ ally_ops_A k opts a c
         @ enemy_ops_A k opts a c @ label_ops_A k opts a c"
proof -
  define x where "x = cell_x k (cellNumber c)"
  define y where "y = cell_y k (cellNumber c)"
  define s4 where "s4 = enemy_A k opts a c x y (ally_A k opts a c x y (los_A k a c x y
      (terrain_A k a c (cellNumber c div MAP_WIDTH k) x y (ctx, False))))"
  have ops: "fst s4 = ctx @ terrain_ops_A k a c @ los_ops_A k a c @ ally_ops_A k opts a c
      @ enemy_ops_A k opts a c"
    unfolding s4_def x_def y_def enemy_A_fst ally_A_fst los_A_fst terrain_A_fst by simp
  have flag: "snd s4 = flag_A k opts a c"
    unfolding s4_def flag_A_eq enemy_A_snd ally_A_snd los_A_snd terrain_A_snd by simp
  have "cell_A k opts a c ctx = label_A k (cellNumber c) x y s4"
    by (simp add: cell_A_def s4_def x_def y_def Let_def)
  also have "\<dots> = fst s4 @ label_A k (cellNumber c) x y ([], snd s4)"
    by (rule label_A_app)
  finally show ?thesis
    by (simp add: ops flag label_ops_A_def x_def y_def)
qed

lemma terrain_ops_B_eq: "terrain_ops_B k a c = terrain_ops_A k a c"
  by (simp add: terrain_ops_B_def terrain_ops_A_def terrain_B_def terrain_A_def)

lemma los_ops_B_eq: "los_ops_B k a c = los_ops_A k a c"
  by (simp add: los_ops_B_def los_ops_A_def los_B_def los_A_def)

lemma start_ops_B_eq: "start_ops_B k opts a c = ally_ops_A k opts a c @ enemy_ops_A k opts a c"
  by (auto simp: start_ops_B_def ally_ops_A_def enemy_ops_A_def start_B_def ally_A_def enemy_A_def Let_def)

lemma terrain_B_app:
  "terrain_B k a c (cellNumber c div MAP_WIDTH k) (cell_x k (cellNumber c))
          (cell_y k (cellNumber c)) ctx = ctx @ terrain_ops_B k a c"
  by (simp add: terrain_ops_B_def terrain_B_def)

lemma los_B_app:
  "los_B k a c (cell_x k (cellNumber c)) (cell_y k (cellNumber c)) ctx = ctx @ los_ops_B k a c"
  by (simp add: los_ops_B_def los_B_def)

lemma start_B_app:
  "start_B k opts a c (cell_x k (cellNumber c)) (cell_y k (cellNumber c)) ctx
     = ctx @ start_ops_B k opts a c"
  by (auto simp: start_ops_B_def start_B_def Let_def)

lemma cell_B_layers:
  "cell_B k opts a c ctx =
     ctx @ terrain_ops_B k a c @ los_ops_B k a c @ start_ops_B k opts a c"
  unfolding cell_B_def Let_def start_B_app los_B_app terrain_B_app by simp

lemma fold_cell_A:
  "fold (cell_A k opts a) cs ctx = ctx @ concat (map (\<lambda>c. cell_A k opts a c []) cs)"
proof (induction cs arbitrary: ctx)
  case Nil
  show ?case by simp
next
  case (Cons c cs)
  have "cell_A k opts a c ctx = ctx @ cell_A k opts a c []"
    by (simp add: cell_A_layers)
  with Cons show ?case by simp
qed

lemma fold_cell_B:
  "fold (cell_B k opts a) cs ctx = ctx @ concat (map (\<lambda>c. cell_B k opts a c []) cs)"
proof (induction cs arbitrary: ctx)
  case Nil
  show ?case by simp
next
  case (Cons c cs)
  have "cell_B k opts a c ctx = ctx @ cell_B k opts a c []"
    by (simp add: cell_B_layers)
  with Cons show ?case by simp
qed

lemma draw_positions_append:
  "draw_positions (xs @ ys) = draw_positions xs @ draw_positions ys"
  by (induction xs rule: draw_positions.induct) simp_all

lemma position_eq:
  "cell_x k (cellNumber c) = screenX k c" "cell_y k (cellNumber c) = screenY k c"
  by (simp_all add: cell_x_def cell_y_def screenX_def screenY_def row_def col_def)

lemma terrain_ops_A_eq:
  "terrain_ops_A k a c =
     (if mov c \<and> \<not> nonWalkableDuringFight c
      then [DrawImage (if even (row k c) then gray a else purple a)
              (screenX k c) (screenY k c) (CELL_WIDTH k) (CELL_HEIGHT k)]
      else [])"
  by (simp add: terrain_ops_A_def terrain_A_def position_eq even_iff_mod_2_eq_zero row_def)

lemma los_ops_A_eq:
  "los_ops_A k a c =
     (if \<not> los c \<and> \<not> nonWalkableDuringFight c
      then [DrawImage (high a) (screenX k c) (screenY k c + CELL_OFFSET k)
              (CELL_WIDTH k) (CELL_DOUBLE_HEIGHT k)]
      else [])"
  by (simp add: los_ops_A_def los_A_def position_eq)

lemma ally_ops_A_eq:
  "ally_ops_A k opts a c =
     (if blue c \<and> ally a \<noteq> None \<and> displayStartCells opts
      then [DrawImage (the (ally a)) (screenX k c) (screenY k c + CELL_OFFSET k)
              (CELL_WIDTH k) (CELL_DOUBLE_HEIGHT k)]
      else [])"
  by (simp add: ally_ops_A_def ally_A_def position_eq)

lemma enemy_ops_A_eq:
  "enemy_ops_A k opts a c =
     (if red c \<and> enemy a \<noteq> None \<and> displayStartCells opts
      then [DrawImage (the (enemy a)) (screenX k c) (screenY k c + CELL_OFFSET k)
              (CELL_WIDTH k) (CELL_DOUBLE_HEIGHT k)]
      else [])"
  by (simp add: enemy_ops_A_def enemy_A_def position_eq)

lemma label_ops_A_eq:
  "label_ops_A k opts a c =
     (if flag_A k opts a c
      then [FillStyle ''white'', Font ''12px Arial'', TextAlign ''center'',
            TextBaseline ''middle'',
            FillText (toString (cellNumber c))
              (cell_x k (cellNumber c) + CELL_WIDTH k / 2)
              (cell_y k (cellNumber c) + CELL_HEIGHT k / 2)]
      else [])"
  by (simp add: label_ops_A_def label_A_def)

lemma draw_positions_label: "draw_positions (label_ops_A k opts a c) = []"
  by (simp add: label_ops_A_eq)

lemma cell_A_eq_cell_B:
  "cell_A k opts a c [] = cell_B k opts a c [] @ label_ops_A k opts a c"
  by (simp add: cell_A_layers cell_B_layers terrain_ops_B_eq los_ops_B_eq start_ops_B_eq)

lemma start_ops_eq:
  "ally_ops_A k opts a c @ enemy_ops_A k opts a c = start_zone_overlays k opts a c"
  unfolding ally_ops_A_eq enemy_ops_A_eq start_zone_overlays_def by simp

lemma label_ops_A_label: "label_ops_A k opts a c = cell_number_label k opts a c"
  unfolding label_ops_A_eq flag_A_eq cell_number_label_def position_eq by simp

lemma cell_A_explicit:
  "cell_A k opts a c ctx =
     ctx
     @ (if mov c \<and> \<not> nonWalkableDuringFight c
        then [DrawImage (if even (cellNumber c div MAP_WIDTH k) then gray a else purple a)
                (screenX k c) (screenY k c) (CELL_WIDTH k) (CELL_HEIGHT k)]
        else [])
     @ (if \<not> los c \<and> \<not> nonWalkableDuringFight c
        then [DrawImage (high a) (screenX k c) (screenY k c + CELL_OFFSET k)
                (CELL_WIDTH k) (CELL_DOUBLE_HEIGHT k)]
        else [])
     @ start_zone_overlays k opts a c
     @ cell_number_label k opts a c"
proof -
  have "cell_A k opts a c ctx =
      ctx @ terrain_ops_A k a c @ los_ops_A k a c
        @ (ally_ops_A k opts a c @ enemy_ops_A k opts a c) @ label_ops_A k opts a c"
    by (simp add: cell_A_layers)
  then show ?thesis
    unfolding start_ops_eq label_ops_A_label terrain_ops_A_eq los_ops_A_eq row_def .
qed

lemma cell_B_explicit:
  "cell_B k opts a c ctx =
     ctx
     @ (if mov c \<and> \<not> nonWalkableDuringFight c
        then [DrawImage (if even (cellNumber c div MAP_WIDTH k) then gray a else purple a)
                (screenX k c) (screenY k c) (CELL_WIDTH k) (CELL_HEIGHT k)]
        else [])
     @ (if \<not> los c \<and> \<not> nonWalkableDuringFight c
        then [DrawImage (high a) (screenX k c) (screenY k c + CELL_OFFSET k)
                (CELL_WIDTH k) (CELL_DOUBLE_HEIGHT k)]
        else [])
     @ start_zone_overlays k opts a c"
proof -
  have "cell_B k opts a c ctx =
      ctx @ terrain_ops_A k a c @ los_ops_A k a c
        @ (ally_ops_A k opts a c @ enemy_ops_A k opts a c)"
    by (simp add: cell_B_layers terrain_ops_B_eq los_ops_B_eq start_ops_B_eq)
  then show ?thesis
    unfolding start_ops_eq terrain_ops_A_eq los_ops_A_eq row_def .
qed

text \<open>
  Claim C5. The loop body appends for a cell, first, the terrain tile: for a cell with
  \<open>mov\<close> true and \<open>nonWalkableDuringFight\<close> false one image at the cell's screen position
  \<open>(screenX, screenY)\<close>, at full cell size, the \<open>gray\<close> asset when \<open>floor (cellNumber /
  MAP_WIDTH)\<close> is even and the \<open>purple\<close> asset otherwise; with \<open>mov\<close> false or
  \<open>nonWalkableDuringFight\<close> true no tile. What follows the tile is the line-of-sight
  overlay, the start-zone overlays and, in \<^verbatim>\<open>index.ts\<close>, the label. Both versions.
\<close>

theorem terrain_tile_by_row_parity:
  assumes "0 < MAP_WIDTH k"
  shows "cell_A k opts a c ctx =
           ctx
           @ (if mov c \<and> \<not> nonWalkableDuringFight c
              then [DrawImage (if even (cellNumber c div MAP_WIDTH k) then gray a else purple a)
                      (screenX k c) (screenY k c) (CELL_WIDTH k) (CELL_HEIGHT k)]
              else [])
           @ (if \<not> los c \<and> \<not> nonWalkableDuringFight c
              then [DrawImage (high a) (screenX k c) (screenY k c + CELL_OFFSET k)
                      (CELL_WIDTH k) (CELL_DOUBLE_HEIGHT k)]
              else [])
           @ start_zone_overlays k opts a c
           @ cell_number_label k opts a c
       \<and> cell_B k opts a c ctx =
           ctx
           @ (if mov c \<and> \<not> nonWalkableDuringFight c
              then [DrawImage (if even (cellNumber c div MAP_WIDTH k) then gray a else purple a)
                      (screenX k c) (screenY k c) (CELL_WIDTH k) (CELL_HEIGHT k)]
              else [])
           @ (if \<not> los c \<and> \<not> nonWalkableDuringFight c
              then [DrawImage (high a) (screenX k c) (screenY k c + CELL_OFFSET k)
                      (CELL_WIDTH k) (CELL_DOUBLE_HEIGHT k)]
              else [])
           @ start_zone_overlays k opts a c"
  using cell_A_explicit[of k opts a c ctx] cell_B_explicit[of k opts a c ctx] by (rule conjI)

theorem terrain_tile_by_row_parity_witness:
  "0 < MAP_WIDTH example_constants
   \<and> cell_A example_constants full_options example_assets example_cell []
       = [DrawImage (example_image ''purple'') 129 (43 / 2) 86 43,
          DrawImage (example_image ''high'') 129 0 86 86,
          DrawImage (example_image ''ally'') 129 0 86 86,
          FillStyle ''white'', Font ''12px Arial'', TextAlign ''center'', TextBaseline ''middle'',
          FillText ''15'' 172 43]
   \<and> cell_B example_constants full_options example_assets example_cell []
       = [DrawImage (example_image ''purple'') 129 (43 / 2) 86 43,
          DrawImage (example_image ''high'') 129 0 86 86,
          DrawImage (example_image ''ally'') 129 0 86 86]
   \<and> cell_B example_constants plain_options example_assets origin_cell []
       = [DrawImage (example_image ''gray'') 0 0 86 43]
   \<and> cell_A example_constants plain_options example_assets origin_cell []
       = [DrawImage (example_image ''gray'') 0 0 86 43,
          FillStyle ''white'', Font ''12px Arial'', TextAlign ''center'', TextBaseline ''middle'',
          FillText ''0'' 43 (43 / 2)]"
proof -
  have h: "0 < MAP_WIDTH example_constants"
    by (simp add: example_constants_def)
  have n: "toString 15 = ''15''" "toString 0 = ''0''"
    by code_simp+
  show ?thesis
    using h n terrain_tile_by_row_parity[OF h, of full_options example_assets example_cell "[]"]
      terrain_tile_by_row_parity[OF h, of plain_options example_assets origin_cell "[]"]
    by (simp add: example_constants_def example_assets_def example_cell_def origin_cell_def
        full_options_def plain_options_def start_zone_overlays_def cell_number_label_def
        screenX_def screenY_def row_def col_def)
qed

text \<open>
  Claim C6. Every image drawn for a cell is placed from \<open>row = floor (cellNumber /
  MAP_WIDTH)\<close> and \<open>col = cellNumber mod MAP_WIDTH\<close>: the terrain tile at \<open>(screenX,
  screenY)\<close> with \<open>screenX = col * CELL_WIDTH + (row mod 2) * CELL_HALF_WIDTH\<close> and
  \<open>screenY = row * CELL_HALF_HEIGHT\<close>, the line-of-sight and start-zone overlays at
  \<open>(screenX, screenY + CELL_OFFSET)\<close>. Both versions.
\<close>

theorem layers_positioned:
  assumes "0 < MAP_WIDTH k"
  shows "draw_positions (cell_A k opts a c []) =
           (if mov c \<and> \<not> nonWalkableDuringFight c then [(screenX k c, screenY k c)] else [])
         @ (if \<not> los c \<and> \<not> nonWalkableDuringFight c
            then [(screenX k c, screenY k c + CELL_OFFSET k)] else [])
         @ (if blue c \<and> ally a \<noteq> None \<and> displayStartCells opts
            then [(screenX k c, screenY k c + CELL_OFFSET k)] else [])
         @ (if red c \<and> enemy a \<noteq> None \<and> displayStartCells opts
            then [(screenX k c, screenY k c + CELL_OFFSET k)] else [])
       \<and> draw_positions (cell_B k opts a c []) =
           (if mov c \<and> \<not> nonWalkableDuringFight c then [(screenX k c, screenY k c)] else [])
         @ (if \<not> los c \<and> \<not> nonWalkableDuringFight c
            then [(screenX k c, screenY k c + CELL_OFFSET k)] else [])
         @ (if blue c \<and> ally a \<noteq> None \<and> displayStartCells opts
            then [(screenX k c, screenY k c + CELL_OFFSET k)] else [])
         @ (if red c \<and> enemy a \<noteq> None \<and> displayStartCells opts
            then [(screenX k c, screenY k c + CELL_OFFSET k)] else [])"
proof -
  have t: "draw_positions (terrain_ops_A k a c) =
      (if mov c \<and> \<not> nonWalkableDuringFight c then [(screenX k c, screenY k c)] else [])"
    by (simp add: terrain_ops_A_eq)
  have l: "draw_positions (los_ops_A k a c) =
      (if \<not> los c \<and> \<not> nonWalkableDuringFight c
       then [(screenX k c, screenY k c + CELL_OFFSET k)] else [])"
    by (simp add: los_ops_A_eq)
  have al: "draw_positions (ally_ops_A k opts a c) =
      (if blue c \<and> ally a \<noteq> None \<and> displayStartCells opts
       then [(screenX k c, screenY k c + CELL_OFFSET k)] else [])"
    by (simp add: ally_ops_A_eq)
  have en: "draw_positions (enemy_ops_A k opts a c) =
      (if red c \<and> enemy a \<noteq> None \<and> displayStartCells opts
       then [(screenX k c, screenY k c + CELL_OFFSET k)] else [])"
    by (simp add: enemy_ops_A_eq)
  show ?thesis
    unfolding cell_A_layers cell_B_layers terrain_ops_B_eq los_ops_B_eq start_ops_B_eq
      draw_positions_append t l al en draw_positions_label
    by simp
qed


theorem layers_positioned_witness:
  "0 < MAP_WIDTH example_constants
   \<and> draw_positions (cell_A example_constants full_options example_assets example_cell [])
       = [(129, 43 / 2), (129, 0), (129, 0)]
   \<and> draw_positions (cell_B example_constants full_options example_assets example_cell [])
       = [(129, 43 / 2), (129, 0), (129, 0)]"
proof -
  have h: "0 < MAP_WIDTH example_constants"
    by (simp add: example_constants_def)
  show ?thesis
    using h layers_positioned[OF h, of full_options example_assets example_cell]
    by (simp add: example_constants_def example_assets_def example_cell_def full_options_def
        screenX_def screenY_def row_def col_def)
qed

text \<open>
  Claim C7. For a cell with \<open>nonWalkableDuringFight\<close> true the loop body appends neither a
  terrain tile nor a line-of-sight overlay, whatever \<open>mov\<close> and \<open>los\<close> are: only the
  start-zone overlays and, in \<^verbatim>\<open>index.ts\<close>, the label. For a cell with \<open>los\<close> false and
  \<open>nonWalkableDuringFight\<close> false it appends, after the tile (drawn when \<open>mov\<close> is true),
  the \<open>high\<close> asset at \<open>(screenX, screenY + CELL_OFFSET)\<close>, \<open>CELL_WIDTH\<close> wide and
  \<open>CELL_DOUBLE_HEIGHT\<close> high, whatever \<open>mov\<close> is. Both versions.
\<close>

theorem nonwalkable_suppresses:
  assumes "0 < MAP_WIDTH k"
  shows "(nonWalkableDuringFight c \<longrightarrow>
            cell_A k opts a c ctx
              = ctx @ start_zone_overlays k opts a c @ cell_number_label k opts a c
          \<and> cell_B k opts a c ctx = ctx @ start_zone_overlays k opts a c)
       \<and> (\<not> los c \<and> \<not> nonWalkableDuringFight c \<longrightarrow>
            cell_A k opts a c ctx
              = ctx
                @ (if mov c
                   then [DrawImage (if even (cellNumber c div MAP_WIDTH k) then gray a else purple a)
                           (screenX k c) (screenY k c) (CELL_WIDTH k) (CELL_HEIGHT k)]
                   else [])
                @ [DrawImage (high a) (screenX k c) (screenY k c + CELL_OFFSET k)
                     (CELL_WIDTH k) (CELL_DOUBLE_HEIGHT k)]
                @ start_zone_overlays k opts a c @ cell_number_label k opts a c
          \<and> cell_B k opts a c ctx
              = ctx
                @ (if mov c
                   then [DrawImage (if even (cellNumber c div MAP_WIDTH k) then gray a else purple a)
                           (screenX k c) (screenY k c) (CELL_WIDTH k) (CELL_HEIGHT k)]
                   else [])
                @ [DrawImage (high a) (screenX k c) (screenY k c + CELL_OFFSET k)
                     (CELL_WIDTH k) (CELL_DOUBLE_HEIGHT k)]
                @ start_zone_overlays k opts a c)"
  by (simp add: cell_A_explicit cell_B_explicit)

theorem nonwalkable_suppresses_witness:
  "0 < MAP_WIDTH example_constants
   \<and> nonWalkableDuringFight blocked_cell
   \<and> cell_A example_constants full_options example_assets blocked_cell [] = []
   \<and> cell_B example_constants full_options example_assets blocked_cell [] = []
   \<and> \<not> los example_cell \<and> \<not> nonWalkableDuringFight example_cell
   \<and> cell_A example_constants plain_options example_assets example_cell []
       = [DrawImage (example_image ''purple'') 129 (43 / 2) 86 43,
          DrawImage (example_image ''high'') 129 0 86 86,
          FillStyle ''white'', Font ''12px Arial'', TextAlign ''center'', TextBaseline ''middle'',
          FillText ''15'' 172 43]
   \<and> cell_B example_constants plain_options example_assets example_cell []
       = [DrawImage (example_image ''purple'') 129 (43 / 2) 86 43,
          DrawImage (example_image ''high'') 129 0 86 86]"
proof -
  have h: "0 < MAP_WIDTH example_constants"
    by (simp add: example_constants_def)
  have b: "nonWalkableDuringFight blocked_cell"
    by (simp add: blocked_cell_def)
  have e: "\<not> los example_cell \<and> \<not> nonWalkableDuringFight example_cell"
    by (simp add: example_cell_def)
  have n: "toString 15 = ''15''"
    by code_simp
  show ?thesis
    using h b e n
      nonwalkable_suppresses[OF h, of blocked_cell full_options example_assets "[]"]
      nonwalkable_suppresses[OF h, of example_cell plain_options example_assets "[]"]
    by (simp add: example_constants_def example_assets_def example_cell_def blocked_cell_def
        full_options_def plain_options_def start_zone_overlays_def cell_number_label_def
        screenX_def screenY_def row_def col_def)
qed

text \<open>
  Claim C9. On the same map, options and assets, the grid pass of \<^verbatim>\<open>index.ts\<close> performs
  the operations of the grid pass of \<^verbatim>\<open>part_000\<close>, in the same order, and after the
  operations of each cell for which the terrain, ally or enemy statement set
  \<^verbatim>\<open>cellNeedToBeDraw\<close> it also writes the cell number as a text label. The line-of-sight
  overlay alone sets no flag.
\<close>

theorem grid_passes_agree:
  "grid_A k opts a m ctx =
     ctx @ concat (map (\<lambda>c. cell_B k opts a c [] @ label_ops_A k opts a c) (cellsData (mapData m)))
   \<and> grid_B k opts a (mapData m) ctx =
     ctx @ concat (map (\<lambda>c. cell_B k opts a c []) (cellsData (mapData m)))
   \<and> (\<forall>c. label_ops_A k opts a c =
        (if (mov c \<and> \<not> nonWalkableDuringFight c)
            \<or> (blue c \<and> ally a \<noteq> None \<and> displayStartCells opts)
            \<or> (red c \<and> enemy a \<noteq> None \<and> displayStartCells opts)
         then [FillStyle ''white'', Font ''12px Arial'', TextAlign ''center'',
               TextBaseline ''middle'',
               FillText (toString (cellNumber c))
                 (cell_x k (cellNumber c) + CELL_WIDTH k / 2)
                 (cell_y k (cellNumber c) + CELL_HEIGHT k / 2)]
         else []))"
proof -
  have A: "grid_A k opts a m ctx =
      ctx @ concat (map (\<lambda>c. cell_B k opts a c [] @ label_ops_A k opts a c) (cellsData (mapData m)))"
    by (simp add: grid_A_def fold_cell_A cell_A_eq_cell_B)
  have B: "grid_B k opts a (mapData m) ctx =
      ctx @ concat (map (\<lambda>c. cell_B k opts a c []) (cellsData (mapData m)))"
    by (simp add: grid_B_def fold_cell_B)
  have L: "label_ops_A k opts a c =
        (if (mov c \<and> \<not> nonWalkableDuringFight c)
            \<or> (blue c \<and> ally a \<noteq> None \<and> displayStartCells opts)
            \<or> (red c \<and> enemy a \<noteq> None \<and> displayStartCells opts)
         then [FillStyle ''white'', Font ''12px Arial'', TextAlign ''center'',
               TextBaseline ''middle'',
               FillText (toString (cellNumber c))
                 (cell_x k (cellNumber c) + CELL_WIDTH k / 2)
                 (cell_y k (cellNumber c) + CELL_HEIGHT k / 2)]
         else [])" for c
    unfolding label_ops_A_eq flag_A_eq ..
  from A B L show ?thesis by blast
qed

theorem grid_passes_agree_witness:
  "grid_A example_constants full_options example_assets example_map []
     = grid_B example_constants full_options example_assets (mapData example_map) []
       @ [FillStyle ''white'', Font ''12px Arial'', TextAlign ''center'', TextBaseline ''middle'',
          FillText ''15'' 172 43]"
proof -
  have "grid_B example_constants full_options example_assets (mapData example_map) []
      = cell_B example_constants full_options example_assets example_cell []"
    using grid_passes_agree[of example_constants full_options example_assets example_map "[]"]
    by (simp add: example_map_def)
  moreover have "toString 15 = ''15''"
    by code_simp
  ultimately show ?thesis
    using grid_passes_agree[of example_constants full_options example_assets example_map "[]"]
    by (simp add: example_map_def example_cell_def example_assets_def full_options_def
        example_constants_def cell_x_def cell_y_def)
qed

section \<open>Loading: failures, the cache, the order of the loads\<close>

lemma entry_paths_simps [simp]:
  "entry_paths opts [] = []"
  "entry_paths opts ((key, v) # es) = asset_path opts v # entry_paths opts es"
  by (simp_all add: entry_paths_def)

lemma asset_paths_cases:
  "asset_paths opts =
     [asset_path opts ''areaUnitHigh'', asset_path opts ''grayCell'', asset_path opts ''purpleCell'']
     @ (if displayStartCells opts
        then [asset_path opts ''areaUnitAlly'', asset_path opts ''areaUnitEnemy''] else [])
     @ (if addWatermark opts then [asset_path opts ''E-bou''] else [])"
  by (simp add: asset_paths_def assets_entries_def)

lemma await_positions_3:
  "await_positions d [p0, p1, p2] tr = awaited d [p0, p1, p2] tr"
  by (simp add: await_positions_def awaited_def and_then_def await_B_def nth_opt_def
      split: option.split)

lemma await_positions_4:
  "await_positions d [p0, p1, p2, p3] tr = awaited d [p0, p1, p2, p3] tr"
  by (simp add: await_positions_def awaited_def and_then_def await_B_def nth_opt_def
      split: option.split)

lemma await_positions_5:
  "await_positions d [p0, p1, p2, p3, p4] tr = awaited d [p0, p1, p2, p3, p4] tr"
  by (simp add: await_positions_def awaited_def and_then_def await_B_def nth_opt_def
      split: option.split)

lemma await_positions_6:
  "await_positions d [p0, p1, p2, p3, p4, p5] tr = awaited d [p0, p1, p2, p3, p4, p5] tr"
  by (simp add: await_positions_def awaited_def and_then_def await_B_def nth_opt_def
      split: option.split)

lemma loadAssets_B_eq:
  "loadAssets_B d opts tr = awaited d (asset_paths opts) (tr @ map LoadImage (asset_paths opts))"
  unfolding loadAssets_B_def entry_paths_def[symmetric] asset_paths_def[symmetric] Let_def
  by (cases "displayStartCells opts"; cases "addWatermark opts")
     (simp_all only: asset_paths_cases if_True if_False append.simps append_Nil2
        await_positions_3 await_positions_4 await_positions_5 await_positions_6)

lemma await_list_settled: "list_all is_settled (fst (await_list d ps))"
  by (induction ps) (simp_all split: option.split)

lemma await_list_Inl:
  "snd (await_list d ps) = Inl e \<Longrightarrow> \<exists>q. e = AssetLoadError q \<and> q \<in> set ps \<and> d q = None"
  by (induction ps) (auto split: option.splits sum.splits)

lemma await_list_fails:
  "p \<in> set ps \<Longrightarrow> d p = None \<Longrightarrow> \<exists>e. snd (await_list d ps) = Inl e"
  by (induction ps) (auto split: option.splits sum.splits)

lemma await_list_Inr:
  "snd (await_list d ps) = Inr imgs \<Longrightarrow>
     map d ps = map Some imgs \<and> fst (await_list d ps) = map Resolved ps"
  by (induction ps arbitrary: imgs) (auto split: option.splits sum.splits)

lemma resolved_world_simps:
  "assetsCache (resolved_world w p img) = (assetsCache w)(p \<mapsto> img)"
  "trace (resolved_world w p img) = trace w @ [LoadImage p, Resolved p]"
  by (simp_all add: resolved_world_def)

lemma load_loop_A_cached:
  "assetsCache w (asset_path opts v) = Some cached \<Longrightarrow>
     load_loop_A d opts ((key, v) # es) l w = load_loop_A d opts es (l(key \<mapsto> cached)) w"
  by (simp add: Let_def)

lemma load_loop_A_rejected:
  "assetsCache w (asset_path opts v) = None \<Longrightarrow> d (asset_path opts v) = None \<Longrightarrow>
     load_loop_A d opts ((key, v) # es) l w =
       (w\<lparr>trace := trace w @ [LoadImage (asset_path opts v), Rejected (asset_path opts v)]\<rparr>,
        Inl (AssetLoadError (asset_path opts v)))"
  by (simp add: Let_def)

lemma load_loop_A_resolved:
  "assetsCache w (asset_path opts v) = None \<Longrightarrow> d (asset_path opts v) = Some img \<Longrightarrow>
     load_loop_A d opts ((key, v) # es) l w =
       load_loop_A d opts es (l(key \<mapsto> img)) (resolved_world w (asset_path opts v) img)"
  by (simp add: Let_def resolved_world_def)

declare load_loop_A.simps(2) [simp del]

lemma load_loop_A_cases [case_names Nil Cached Rejected Resolved]:
  assumes "\<And>l w. P [] l w"
    and "\<And>key v es l w cached.
          assetsCache w (asset_path opts v) = Some cached \<Longrightarrow>
          P es (l(key \<mapsto> cached)) w \<Longrightarrow> P ((key, v) # es) l w"
    and "\<And>key v es l w.
          assetsCache w (asset_path opts v) = None \<Longrightarrow> d (asset_path opts v) = None \<Longrightarrow>
          P ((key, v) # es) l w"
    and "\<And>key v es l w img.
          assetsCache w (asset_path opts v) = None \<Longrightarrow> d (asset_path opts v) = Some img \<Longrightarrow>
          P es (l(key \<mapsto> img)) (resolved_world w (asset_path opts v) img) \<Longrightarrow>
          P ((key, v) # es) l w"
  shows "P es l w"
proof (induction es arbitrary: l w)
  case Nil
  show ?case by (rule assms(1))
next
  case (Cons kv es l w)
  obtain key v where kv: "kv = (key, v)" by (cases kv)
  show ?case
  proof (cases "assetsCache w (asset_path opts v)")
    case (Some cached)
    then show ?thesis unfolding kv by (rule assms(2)) (rule Cons)
  next
    case None
    note uncached = this
    show ?thesis
    proof (cases "d (asset_path opts v)")
      case None
      with uncached show ?thesis unfolding kv by (rule assms(3))
    next
      case (Some img)
      with uncached show ?thesis unfolding kv by (rule assms(4)) (rule Cons)
    qed
  qed
qed

lemma load_loop_A_trace:
  "\<exists>evs. trace (fst (load_loop_A d opts es l w)) = trace w @ evs \<and> one_at_a_time evs"
proof (induction es l w rule: load_loop_A_cases[where d = d and opts = opts])
  case (Nil l w)
  show ?case by simp
next
  case (Cached key v es l w cached)
  then show ?case by (simp only: load_loop_A_cached)
next
  case (Rejected key v es l w)
  have "one_at_a_time [LoadImage (asset_path opts v), Rejected (asset_path opts v)]" by simp
  then show ?case using Rejected by (simp add: load_loop_A_rejected)
next
  case (Resolved key v es l w img)
  then obtain evs where
    tr: "trace (fst (load_loop_A d opts es (l(key \<mapsto> img)) (resolved_world w (asset_path opts v) img)))
         = trace (resolved_world w (asset_path opts v) img) @ evs"
    and one: "one_at_a_time evs" by blast
  have "one_at_a_time (LoadImage (asset_path opts v) # Resolved (asset_path opts v) # evs)"
    using one by simp
  moreover have "trace (fst (load_loop_A d opts ((key, v) # es) l w)) =
      trace w @ (LoadImage (asset_path opts v) # Resolved (asset_path opts v) # evs)"
    using Resolved(1,2) tr by (simp add: load_loop_A_resolved resolved_world_simps)
  ultimately show ?case by blast
qed

lemma fun_upd_fold: "(\<lambda>a. if a = k then v else l a) = l(k := v)"
  by (rule ext) simp

lemma load_loop_A_Inl:
  "snd (load_loop_A d opts es l w) = Inl e \<Longrightarrow>
     \<exists>q. e = AssetLoadError q \<and> d q = None \<and> q \<in> set (entry_paths opts es)"
proof (induction es l w rule: load_loop_A_cases[where d = d and opts = opts])
  case (Nil l w)
  then show ?case by simp
next
  case (Cached key v es l w cached)
  then show ?case by (simp add: load_loop_A_cached fun_upd_fold) blast
next
  case (Rejected key v es l w)
  then show ?case by (simp add: load_loop_A_rejected) blast
next
  case (Resolved key v es l w img)
  then show ?case by (simp add: load_loop_A_resolved fun_upd_fold) blast
qed

lemma load_loop_A_fails:
  "p \<in> set (entry_paths opts es) \<Longrightarrow> assetsCache w p = None \<Longrightarrow> d p = None
     \<Longrightarrow> \<exists>e. snd (load_loop_A d opts es l w) = Inl e"
proof (induction es l w rule: load_loop_A_cases[where d = d and opts = opts])
  case (Nil l w)
  then show ?case by simp
next
  case (Cached key v es l w cached)
  from Cached(1,4) have "p \<noteq> asset_path opts v" by auto
  with Cached(3) have "p \<in> set (entry_paths opts es)" by simp
  from Cached(2)[OF this Cached(4,5)] Cached(1) show ?case by (simp add: load_loop_A_cached fun_upd_fold)
next
  case (Rejected key v es l w)
  then show ?case by (simp add: load_loop_A_rejected)
next
  case (Resolved key v es l w img)
  from Resolved(2,6) have ne: "p \<noteq> asset_path opts v" by auto
  with Resolved(4) have "p \<in> set (entry_paths opts es)" by simp
  moreover from ne Resolved(5) have "assetsCache (resolved_world w (asset_path opts v) img) p = None"
    by (simp add: resolved_world_simps)
  ultimately show ?case using Resolved(3)[OF _ _ Resolved(6)] Resolved(1,2)
    by (simp add: load_loop_A_resolved fun_upd_fold)
qed

lemma load_loop_A_dom:
  "snd (load_loop_A d opts es l w) = Inr l' \<Longrightarrow> dom l' = dom l \<union> fst ` set es"
proof (induction es l w rule: load_loop_A_cases[where d = d and opts = opts])
  case (Nil l w)
  then show ?case by simp
next
  case (Cached key v es l w cached)
  then show ?case by (auto simp: load_loop_A_cached fun_upd_fold)
next
  case (Rejected key v es l w)
  then show ?case by (simp add: load_loop_A_rejected)
next
  case (Resolved key v es l w img)
  then show ?case by (auto simp: load_loop_A_resolved fun_upd_fold)
qed




lemma assets_record_Some:
  "assets_record (Some h) (Some g) (Some p) al en lg =
     Inr \<lparr>high = h, gray = g, purple = p, ally = al, enemy = en, logo = lg\<rparr>"
  by (simp add: assets_record_def)

lemma assets_entries_required:
  "(''high'', ''areaUnitHigh'') \<in> set (assets_entries opts)"
  "(''gray'', ''grayCell'') \<in> set (assets_entries opts)"
  "(''purple'', ''purpleCell'') \<in> set (assets_entries opts)"
  by (simp_all add: assets_entries_def)

lemma assets_entries_logo:
  "addWatermark opts \<Longrightarrow> (''logo'', ''E-bou'') \<in> set (assets_entries opts)"
  by (simp add: assets_entries_def)

lemma loadAssets_A_alt:
  "loadAssets_A d opts w =
     (fst (load_loop_A d opts (assets_entries opts) Map.empty w),
      (case snd (load_loop_A d opts (assets_entries opts) Map.empty w) of
         Inl e \<Rightarrow> Inl e
       | Inr l \<Rightarrow> assets_record (l ''high'') (l ''gray'') (l ''purple'')
                    (l ''ally'') (l ''enemy'') (l ''logo'')))"
  by (simp add: loadAssets_A_def split: prod.split sum.split)

lemma loadAssets_A_Inr:
  assumes "snd (load_loop_A d opts (assets_entries opts) Map.empty w) = Inr l"
  shows "\<exists>h g p. l ''high'' = Some h \<and> l ''gray'' = Some g \<and> l ''purple'' = Some p
     \<and> snd (loadAssets_A d opts w) =
         Inr \<lparr>high = h, gray = g, purple = p, ally = l ''ally'', enemy = l ''enemy'',
              logo = l ''logo''\<rparr>"
proof -
  from load_loop_A_dom[OF assms] have dom: "dom l = fst ` set (assets_entries opts)" by simp
  have "''high'' \<in> dom l"
    unfolding dom using assets_entries_required(1)[of opts] by (rule rev_image_eqI) simp
  moreover have "''gray'' \<in> dom l"
    unfolding dom using assets_entries_required(2)[of opts] by (rule rev_image_eqI) simp
  moreover have "''purple'' \<in> dom l"
    unfolding dom using assets_entries_required(3)[of opts] by (rule rev_image_eqI) simp
  ultimately obtain h g p where
    hgp: "l ''high'' = Some h" "l ''gray'' = Some g" "l ''purple'' = Some p"
    by (auto simp only: dom_def mem_Collect_eq not_None_eq)
  have "snd (loadAssets_A d opts w) =
      assets_record (l ''high'') (l ''gray'') (l ''purple'') (l ''ally'') (l ''enemy'') (l ''logo'')"
    unfolding loadAssets_A_alt assms by simp
  with hgp show ?thesis by (simp only: assets_record_Some) blast
qed


lemma one_at_a_time_no_canvas: "one_at_a_time evs \<Longrightarrow> filter is_canvas evs = []"
  by (induction evs rule: one_at_a_time.induct) simp_all

lemma settled_no_canvas: "list_all is_settled evs \<Longrightarrow> filter is_canvas evs = []"
proof (induction evs)
  case Nil
  show ?case by simp
next
  case (Cons e evs)
  then show ?case by (cases e) simp_all
qed

lemma loads_no_canvas: "filter is_canvas (map LoadImage ps) = []"
  by (induction ps) simp_all

lemma render_A_alt:
  "render_A k d m opts w =
     (case snd (loadAssets_A d opts w) of
        Inl e \<Rightarrow> (fst (loadAssets_A d opts w), Inl e)
      | Inr a \<Rightarrow>
          ((fst (loadAssets_A d opts w))
             \<lparr>trace := trace (fst (loadAssets_A d opts w))
                @ map Canvas (watermark_step k opts a (grid_A k opts a m (canvas_init k)))\<rparr>,
           Inr (Buffer (watermark_step k opts a (grid_A k opts a m (canvas_init k))))))"
  by (simp add: render_A_def Let_def split: prod.split sum.split)

lemma render_B_alt:
  "render_B k d m opts tr =
     (case snd (loadAssets_B d opts tr) of
        Inl e \<Rightarrow> (fst (loadAssets_B d opts tr), Inl e)
      | Inr a \<Rightarrow>
          (fst (loadAssets_B d opts tr)
             @ map Canvas (watermark_step k opts a (grid_B k opts a m (canvas_init k))),
           Inr (Buffer (watermark_step k opts a (grid_B k opts a m (canvas_init k))))))"
  by (simp add: render_B_def Let_def split: prod.split sum.split)

lemma render_A_fails:
  assumes "p \<in> set (asset_paths opts)" "d p = None" "assetsCache w p = None"
  shows "\<exists>q. snd (render_A k d m opts w) = Inl (AssetLoadError q)
           \<and> q \<in> set (asset_paths opts) \<and> d q = None
           \<and> filter is_canvas (trace (fst (render_A k d m opts w))) = filter is_canvas (trace w)"
proof -
  let ?loop = "load_loop_A d opts (assets_entries opts) Map.empty w"
  from load_loop_A_fails[where d = d, OF assms(1)[unfolded asset_paths_def] assms(3,2)]
  obtain e where e: "snd ?loop = Inl e" by blast
  from load_loop_A_Inl[OF e] obtain q where
    q: "e = AssetLoadError q" "d q = None" "q \<in> set (asset_paths opts)"
    unfolding asset_paths_def by blast
  from load_loop_A_trace[of d opts "assets_entries opts" Map.empty w] obtain evs where
    evs: "trace (fst ?loop) = trace w @ evs" "one_at_a_time evs" by blast
  have r: "render_A k d m opts w = (fst ?loop, Inl e)"
    unfolding render_A_alt loadAssets_A_alt using e by simp
  show ?thesis
    unfolding r using q evs by (simp add: one_at_a_time_no_canvas)
qed

lemma render_B_fails:
  assumes "p \<in> set (asset_paths opts)" "d p = None"
  shows "\<exists>q. snd (render_B k d m opts tr) = Inl (AssetLoadError q)
           \<and> q \<in> set (asset_paths opts) \<and> d q = None
           \<and> filter is_canvas (fst (render_B k d m opts tr)) = filter is_canvas tr"
proof -
  let ?ps = "asset_paths opts"
  from await_list_fails[where d = d, OF assms] obtain e where e: "snd (await_list d ?ps) = Inl e" by blast
  from await_list_Inl[OF e] obtain q where
    q: "e = AssetLoadError q" "q \<in> set ?ps" "d q = None" by blast
  have r: "render_B k d m opts tr = (tr @ map LoadImage ?ps @ fst (await_list d ?ps), Inl e)"
    unfolding render_B_alt loadAssets_B_eq awaited_def using e by simp
  show ?thesis
    unfolding r using q
    by (simp add: loads_no_canvas settled_no_canvas[OF await_list_settled])
qed

text \<open>
  Claim C3. If the decode of a required asset fails during \<^verbatim>\<open>loadAssets\<close> (in
  \<^verbatim>\<open>index.ts\<close> the asset is not in the cache, so that its decode is attempted), then
  \<^verbatim>\<open>render\<close> fails with the load error of a required path whose decode failed, returns
  no buffer, and performs no operation on any canvas: none is created and nothing is
  drawn. Both versions.
\<close>

theorem render_fails_on_asset_load_failure:
  assumes "p \<in> set (asset_paths opts)" and "decode p = None"
  shows "(assetsCache w p = None \<longrightarrow>
            (\<exists>q. snd (render_A k decode m opts w) = Inl (AssetLoadError q)
                \<and> q \<in> set (asset_paths opts) \<and> decode q = None
                \<and> filter is_canvas (trace (fst (render_A k decode m opts w)))
                    = filter is_canvas (trace w)))
       \<and> (\<exists>q. snd (render_B k decode md opts tr) = Inl (AssetLoadError q)
                \<and> q \<in> set (asset_paths opts) \<and> decode q = None
                \<and> filter is_canvas (fst (render_B k decode md opts tr)) = filter is_canvas tr)"
  using render_A_fails[where d = decode, OF assms, of w k m]
    render_B_fails[where d = decode, OF assms, of k md tr] by blast

theorem render_fails_on_asset_load_failure_witness:
  "''assets/areaUnitHigh.png'' \<in> set (asset_paths watermark_only)
   \<and> missing_high_decoder ''assets/areaUnitHigh.png'' = None
   \<and> assetsCache empty_world ''assets/areaUnitHigh.png'' = None
   \<and> snd (render_A example_constants missing_high_decoder example_map watermark_only empty_world)
       = Inl (AssetLoadError ''assets/areaUnitHigh.png'')
   \<and> filter is_canvas
         (trace (fst (render_A example_constants missing_high_decoder example_map watermark_only
            empty_world))) = []
   \<and> snd (render_B example_constants missing_high_decoder (mapData example_map) watermark_only [])
       = Inl (AssetLoadError ''assets/areaUnitHigh.png'')
   \<and> filter is_canvas
         (fst (render_B example_constants missing_high_decoder (mapData example_map) watermark_only []))
       = []"
proof -
  have p: "''assets/areaUnitHigh.png'' \<in> set (asset_paths watermark_only)"
    by code_simp
  have d: "missing_high_decoder ''assets/areaUnitHigh.png'' = None"
    by code_simp
  have c: "assetsCache empty_world ''assets/areaUnitHigh.png'' = None"
    by code_simp
  have a: "snd (render_A example_constants missing_high_decoder example_map watermark_only
      empty_world) = Inl (AssetLoadError ''assets/areaUnitHigh.png'')"
    by code_simp
  have b: "snd (render_B example_constants missing_high_decoder (mapData example_map)
      watermark_only []) = Inl (AssetLoadError ''assets/areaUnitHigh.png'')"
    by code_simp
  have t: "trace empty_world = []"
    by code_simp
  from render_fails_on_asset_load_failure[where decode = missing_high_decoder, OF p d,
      of empty_world example_constants example_map "mapData example_map" "[]"] c t
  have "filter is_canvas
         (trace (fst (render_A example_constants missing_high_decoder example_map watermark_only
            empty_world))) = []"
    and "filter is_canvas
         (fst (render_B example_constants missing_high_decoder (mapData example_map) watermark_only []))
       = []"
    by auto
  with p d c a b show ?thesis by blast
qed











section \<open>The whole render: the order of the draws, the watermark\<close>

lemma watermark_step_app: "watermark_step k opts a ctx = ctx @ watermark_step k opts a []"
  by (simp add: watermark_step_def addWatermark_draw_def Let_def)

lemma watermark_step_off: "\<not> addWatermark opts \<Longrightarrow> watermark_step k opts a ctx = ctx"
  by (simp add: watermark_step_def)

lemma watermark_step_logo:
  "addWatermark opts \<Longrightarrow> logo a = Some l \<Longrightarrow>
     watermark_step k opts a ctx =
       ctx @ [DrawImage l (WIDTH k - min 100 (width l) - 10) (HEIGHT k - min 100 (height l) - 10)
                (min 100 (width l)) (min 100 (height l))]"
  by (simp add: watermark_step_def addWatermark_draw_def Let_def)

lemma grid_A_layers:
  "grid_A k opts a m ctx =
     ctx @ concat (map (\<lambda>c. terrain_ops_A k a c
                          @ (los_ops_A k a c @ ally_ops_A k opts a c @ enemy_ops_A k opts a c
                             @ label_ops_A k opts a c))
                     (cellsData (mapData m)))"
  by (simp add: grid_A_def fold_cell_A cell_A_layers)

lemma grid_B_layers:
  "grid_B k opts a md ctx =
     ctx @ concat (map (\<lambda>c. terrain_ops_B k a c @ (los_ops_B k a c @ start_ops_B k opts a c))
                     (cellsData md))"
  by (simp add: grid_B_def fold_cell_B cell_B_layers)

lemma render_A_Inr:
  "snd (render_A k d m opts w) = Inr (Buffer ops) \<Longrightarrow>
     \<exists>a. snd (loadAssets_A d opts w) = Inr a
        \<and> ops = watermark_step k opts a (grid_A k opts a m (canvas_init k))"
  unfolding render_A_alt by (auto split: sum.splits)

lemma render_B_Inr:
  "snd (render_B k d md opts tr) = Inr (Buffer ops) \<Longrightarrow>
     \<exists>a. snd (loadAssets_B d opts tr) = Inr a
        \<and> ops = watermark_step k opts a (grid_B k opts a md (canvas_init k))"
  unfolding render_B_alt by (auto split: sum.splits)

text \<open>
  Claim C8. The operations of a render that returns a buffer are, in this order: the
  creation and black fill of the canvas; then, cell after cell, what the terrain
  statement draws for the cell followed by what the overlay statements (and, in
  \<^verbatim>\<open>index.ts\<close>, the label) draw for it; then, last, what the watermark statement draws. So
  the terrain tile of a cell precedes every overlay of that cell, and the watermark,
  when drawn, comes after every draw of the grid. Both versions.
\<close>

theorem draw_order:
  "(\<forall>ops. snd (render_A k decode m opts w) = Inr (Buffer ops) \<longrightarrow>
      (\<exists>a. snd (loadAssets_A decode opts w) = Inr a
          \<and> ops = canvas_init k
              @ concat (map (\<lambda>c. terrain_ops_A k a c
                                   @ (los_ops_A k a c @ ally_ops_A k opts a c
                                      @ enemy_ops_A k opts a c @ label_ops_A k opts a c))
                          (cellsData (mapData m)))
              @ watermark_step k opts a []))
   \<and> (\<forall>ops. snd (render_B k decode md opts tr) = Inr (Buffer ops) \<longrightarrow>
      (\<exists>a. snd (loadAssets_B decode opts tr) = Inr a
          \<and> ops = canvas_init k
              @ concat (map (\<lambda>c. terrain_ops_B k a c
                                   @ (los_ops_B k a c @ start_ops_B k opts a c))
                          (cellsData md))
              @ watermark_step k opts a []))"
proof (intro conjI allI impI)
  fix ops
  assume "snd (render_A k decode m opts w) = Inr (Buffer ops)"
  from render_A_Inr[OF this] obtain a where
    a: "snd (loadAssets_A decode opts w) = Inr a"
    and ops: "ops = watermark_step k opts a (grid_A k opts a m (canvas_init k))" by blast
  have "ops = canvas_init k
      @ concat (map (\<lambda>c. terrain_ops_A k a c
                           @ (los_ops_A k a c @ ally_ops_A k opts a c
                              @ enemy_ops_A k opts a c @ label_ops_A k opts a c))
                  (cellsData (mapData m)))
      @ watermark_step k opts a []"
    using watermark_step_app[of k opts a "grid_A k opts a m (canvas_init k)"]
    by (simp add: ops grid_A_layers)
  with a show "\<exists>a. snd (loadAssets_A decode opts w) = Inr a
          \<and> ops = canvas_init k
              @ concat (map (\<lambda>c. terrain_ops_A k a c
                                   @ (los_ops_A k a c @ ally_ops_A k opts a c
                                      @ enemy_ops_A k opts a c @ label_ops_A k opts a c))
                          (cellsData (mapData m)))
              @ watermark_step k opts a []" by blast
next
  fix ops
  assume "snd (render_B k decode md opts tr) = Inr (Buffer ops)"
  from render_B_Inr[OF this] obtain a where
    a: "snd (loadAssets_B decode opts tr) = Inr a"
    and ops: "ops = watermark_step k opts a (grid_B k opts a md (canvas_init k))" by blast
  have "ops = canvas_init k
      @ concat (map (\<lambda>c. terrain_ops_B k a c @ (los_ops_B k a c @ start_ops_B k opts a c))
                  (cellsData md))
      @ watermark_step k opts a []"
    using watermark_step_app[of k opts a "grid_B k opts a md (canvas_init k)"]
    by (simp add: ops grid_B_layers)
  with a show "\<exists>a. snd (loadAssets_B decode opts tr) = Inr a
          \<and> ops = canvas_init k
              @ concat (map (\<lambda>c. terrain_ops_B k a c
                                   @ (los_ops_B k a c @ start_ops_B k opts a c))
                          (cellsData md))
              @ watermark_step k opts a []" by blast
qed

theorem draw_order_witness:
  "snd (render_A example_constants example_decoder example_map full_options empty_world)
     = Inr (Buffer (canvas_init example_constants
         @ [DrawImage (example_image ''assets/purpleCell.png'') 129 (43 / 2) 86 43,
            DrawImage (example_image ''assets/areaUnitHigh.png'') 129 0 86 86,
            DrawImage (example_image ''assets/areaUnitAlly.png'') 129 0 86 86,
            FillStyle ''white'', Font ''12px Arial'', TextAlign ''center'',
            TextBaseline ''middle'', FillText ''15'' 172 43,
            DrawImage (example_image ''assets/E-bou.png'') 1137 807 100 64]))
   \<and> snd (loadAssets_A example_decoder full_options empty_world) = Inr loaded_assets
   \<and> canvas_init example_constants
         @ [DrawImage (example_image ''assets/purpleCell.png'') 129 (43 / 2) 86 43,
            DrawImage (example_image ''assets/areaUnitHigh.png'') 129 0 86 86,
            DrawImage (example_image ''assets/areaUnitAlly.png'') 129 0 86 86,
            FillStyle ''white'', Font ''12px Arial'', TextAlign ''center'',
            TextBaseline ''middle'', FillText ''15'' 172 43,
            DrawImage (example_image ''assets/E-bou.png'') 1137 807 100 64]
       = canvas_init example_constants
         @ concat (map (\<lambda>c. terrain_ops_A example_constants loaded_assets c
                  @ (los_ops_A example_constants loaded_assets c
                     @ ally_ops_A example_constants full_options loaded_assets c
                     @ enemy_ops_A example_constants full_options loaded_assets c
                     @ label_ops_A example_constants full_options loaded_assets c))
              (cellsData (mapData example_map)))
         @ watermark_step example_constants full_options loaded_assets []"
proof -
  have r: "snd (render_A example_constants example_decoder example_map full_options empty_world)
     = Inr (Buffer (canvas_init example_constants
         @ [DrawImage (example_image ''assets/purpleCell.png'') 129 (43 / 2) 86 43,
            DrawImage (example_image ''assets/areaUnitHigh.png'') 129 0 86 86,
            DrawImage (example_image ''assets/areaUnitAlly.png'') 129 0 86 86,
            FillStyle ''white'', Font ''12px Arial'', TextAlign ''center'',
            TextBaseline ''middle'', FillText ''15'' 172 43,
            DrawImage (example_image ''assets/E-bou.png'') 1137 807 100 64]))"
    by code_simp
  have l: "snd (loadAssets_A example_decoder full_options empty_world) = Inr loaded_assets"
    by code_simp
  from draw_order[of example_constants example_decoder example_map full_options empty_world]
    r l
  show ?thesis by auto
qed

section \<open>The watermark in the two versions\<close>

lemma loadAssets_A_logo:
  assumes "addWatermark opts" and "snd (loadAssets_A d opts w) = Inr a"
  shows "\<exists>l. logo a = Some l"
proof -
  from assms(2) obtain loaded where
    loaded: "snd (load_loop_A d opts (assets_entries opts) Map.empty w) = Inr loaded"
    unfolding loadAssets_A_alt by (auto split: sum.splits)
  from load_loop_A_dom[OF loaded] have dom: "dom loaded = fst ` set (assets_entries opts)"
    by simp
  have "''logo'' \<in> dom loaded"
    unfolding dom using assets_entries_logo[OF assms(1)] by (rule rev_image_eqI) simp
  then obtain l where "loaded ''logo'' = Some l" by blast
  with loadAssets_A_Inr[OF loaded] assms(2) show ?thesis by auto
qed

text \<open>
  \<^verbatim>\<open>index.ts\<close> does what claim C1 says: with \<open>addWatermark\<close> on, a render that returns a
  buffer has drawn the loaded logo, last and once, capped at 100 by 100, 10 pixels from the
  right and bottom edges; with \<open>addWatermark\<close> off, neither version draws a watermark.
\<close>

lemma render_A_draws_watermark:
  assumes "addWatermark opts" and "snd (render_A k d m opts w) = Inr (Buffer ops)"
  shows "\<exists>a l. snd (loadAssets_A d opts w) = Inr a \<and> logo a = Some l
     \<and> ops = grid_A k opts a m (canvas_init k)
         @ [DrawImage l (WIDTH k - min 100 (width l) - 10) (HEIGHT k - min 100 (height l) - 10)
              (min 100 (width l)) (min 100 (height l))]"
proof -
  from render_A_Inr[OF assms(2)] obtain a where
    a: "snd (loadAssets_A d opts w) = Inr a"
    and ops: "ops = watermark_step k opts a (grid_A k opts a m (canvas_init k))" by blast
  from loadAssets_A_logo[OF assms(1) a] obtain l where l: "logo a = Some l" by blast
  from a l ops watermark_step_logo[OF assms(1) l] show ?thesis by simp
qed

lemma no_watermark_when_disabled:
  assumes "\<not> addWatermark opts"
  shows "snd (render_A k d m opts w) = Inr (Buffer ops) \<Longrightarrow>
           \<exists>a. ops = grid_A k opts a m (canvas_init k)"
    and "snd (render_B k d md opts tr) = Inr (Buffer ops) \<Longrightarrow>
           \<exists>a. ops = grid_B k opts a md (canvas_init k)"
  using render_A_Inr[of k d m opts w ops] render_B_Inr[of k d md opts tr ops]
    watermark_step_off[OF assms]
  by auto

text \<open>
  Claim C1 fails in \<^verbatim>\<open>part_000\<close>. With \<open>displayStartCells\<close> off and \<open>addWatermark\<close> on,
  every asset decoding, the render of \<^verbatim>\<open>part_000\<close> returns a canvas that was created and
  filled and nothing else: no watermark. \<^verbatim>\<open>index.ts\<close> on the same input draws the 128 by
  64 logo at 100 by 64, at \<open>(1247 - 100 - 10, 881 - 64 - 10)\<close>.
\<close>

theorem part_000_drops_watermark:
  "addWatermark watermark_only
   \<and> example_decoder ''assets/E-bou.png'' = Some (example_image ''assets/E-bou.png'')
   \<and> snd (render_B example_constants example_decoder (mapData empty_map) watermark_only [])
       = Inr (Buffer (canvas_init example_constants))
   \<and> snd (render_A example_constants example_decoder empty_map watermark_only empty_world)
       = Inr (Buffer (canvas_init example_constants
           @ [DrawImage (example_image ''assets/E-bou.png'') 1137 807 100 64]))"
proof -
  have "addWatermark watermark_only"
    by code_simp
  moreover have "example_decoder ''assets/E-bou.png'' = Some (example_image ''assets/E-bou.png'')"
    by code_simp
  moreover have
    "snd (render_B example_constants example_decoder (mapData empty_map) watermark_only [])
       = Inr (Buffer (canvas_init example_constants))"
    by code_simp
  moreover have
    "snd (render_A example_constants example_decoder empty_map watermark_only empty_world)
       = Inr (Buffer (canvas_init example_constants
           @ [DrawImage (example_image ''assets/E-bou.png'') 1137 807 100 64]))"
    by code_simp
  ultimately show ?thesis by blast
qed

lemma awaited_four:
  "snd (awaited d [p0, p1, p2, p3] tr) = Inr a \<Longrightarrow>
     ally a = d p3 \<and> ally a \<noteq> None \<and> enemy a = None \<and> logo a = None"
  by (auto simp: awaited_def nth_opt_def assets_record_def split: option.splits sum.splits)

text \<open>
  Claim C2 (\<^verbatim>\<open>part_000\<close>). With \<open>displayStartCells\<close> off and \<open>addWatermark\<close> on, four
  loads are issued, the logo \<^verbatim>\<open>E-bou.png\<close> fourth and last. The record that
  \<^verbatim>\<open>loadAssets\<close> returns, read from the promises by the fixed positions 0 to 5, holds the
  decoded logo in its \<open>ally\<close> field and nothing in its \<open>enemy\<close> and \<open>logo\<close> fields, so the
  watermark statement of \<^verbatim>\<open>render\<close> draws nothing: the operations of a render that
  returns a buffer end with the grid pass.
\<close>

theorem positional_await_misplaces_logo:
  assumes "\<not> displayStartCells opts" and "addWatermark opts"
  shows "asset_paths opts =
           [asset_path opts ''areaUnitHigh'', asset_path opts ''grayCell'',
            asset_path opts ''purpleCell'', asset_path opts ''E-bou'']
       \<and> asset_path opts ''E-bou'' = assetPath opts @ ''/E-bou.png''
       \<and> (\<forall>a. snd (loadAssets_B decode opts tr) = Inr a \<longrightarrow>
              ally a = decode (asset_path opts ''E-bou'') \<and> ally a \<noteq> None
            \<and> enemy a = None \<and> logo a = None
            \<and> (\<forall>ctx. watermark_step k opts a ctx = ctx))
       \<and> (\<forall>ops. snd (render_B k decode md opts tr) = Inr (Buffer ops) \<longrightarrow>
              (\<exists>a. snd (loadAssets_B decode opts tr) = Inr a
                  \<and> ops = grid_B k opts a md (canvas_init k)))"
proof -
  have paths: "asset_paths opts =
      [asset_path opts ''areaUnitHigh'', asset_path opts ''grayCell'',
       asset_path opts ''purpleCell'', asset_path opts ''E-bou'']"
    using assms by (simp only: asset_paths_cases if_True if_False append.simps)
  have name: "asset_path opts ''E-bou'' = assetPath opts @ ''/E-bou.png''"
    by (simp add: asset_path_def)
  have fields: "ally a = decode (asset_path opts ''E-bou'') \<and> ally a \<noteq> None
      \<and> enemy a = None \<and> logo a = None \<and> (\<forall>ctx. watermark_step k opts a ctx = ctx)"
    if a: "snd (loadAssets_B decode opts tr) = Inr a" for a
  proof -
    from a have "snd (awaited decode
        [asset_path opts ''areaUnitHigh'', asset_path opts ''grayCell'',
         asset_path opts ''purpleCell'', asset_path opts ''E-bou'']
        (tr @ map LoadImage (asset_paths opts))) = Inr a"
      unfolding loadAssets_B_eq by (simp only: paths)
    from awaited_four[OF this]
    have f: "ally a = decode (asset_path opts ''E-bou'')" "ally a \<noteq> None"
      "enemy a = None" "logo a = None"
      by blast+
    from f(4) have "\<forall>ctx. watermark_step k opts a ctx = ctx"
      by (simp add: watermark_step_def)
    with f show ?thesis by blast
  qed
  have ops: "\<exists>a. snd (loadAssets_B decode opts tr) = Inr a
      \<and> ops = grid_B k opts a md (canvas_init k)"
    if r: "snd (render_B k decode md opts tr) = Inr (Buffer ops)" for ops
  proof -
    from render_B_Inr[OF r] obtain a where
      a: "snd (loadAssets_B decode opts tr) = Inr a"
      and o: "ops = watermark_step k opts a (grid_B k opts a md (canvas_init k))" by blast
    from fields[OF a] o have "ops = grid_B k opts a md (canvas_init k)" by simp
    with a show ?thesis by blast
  qed
  from paths name fields ops show ?thesis by blast
qed

theorem positional_await_misplaces_logo_witness:
  "\<not> displayStartCells watermark_only \<and> addWatermark watermark_only
   \<and> snd (loadAssets_B example_decoder watermark_only []) = Inr misplaced_assets
   \<and> ally misplaced_assets = Some (example_image ''assets/E-bou.png'')
   \<and> logo misplaced_assets = None
   \<and> watermark_step example_constants watermark_only misplaced_assets
        (canvas_init example_constants) = canvas_init example_constants
   \<and> snd (render_B example_constants example_decoder (mapData example_map) watermark_only [])
       = Inr (Buffer (grid_B example_constants watermark_only misplaced_assets
                        (mapData example_map) (canvas_init example_constants)))"
proof -
  have h1: "\<not> displayStartCells watermark_only"
    by code_simp
  have h2: "addWatermark watermark_only"
    by code_simp
  have l: "snd (loadAssets_B example_decoder watermark_only []) = Inr misplaced_assets"
    by code_simp
  have d: "example_decoder (asset_path watermark_only ''E-bou'')
      = Some (example_image ''assets/E-bou.png'')"
    by code_simp
  have r: "snd (render_B example_constants example_decoder (mapData example_map) watermark_only [])
       = Inr (Buffer (grid_B example_constants watermark_only misplaced_assets
                        (mapData example_map) (canvas_init example_constants)))"
    by code_simp
  from positional_await_misplaces_logo[OF h1 h2, of example_decoder "[]" example_constants
      "mapData example_map"] l d
  have "ally misplaced_assets = Some (example_image ''assets/E-bou.png'')"
    and "logo misplaced_assets = None"
    and "watermark_step example_constants watermark_only misplaced_assets
        (canvas_init example_constants) = canvas_init example_constants"
    by auto
  with h1 h2 l r show ?thesis by blast
qed

section \<open>The order of the loads\<close>

lemma await_list_length: "snd (await_list d ps) = Inr imgs \<Longrightarrow> length imgs = length ps"
proof -
  assume "snd (await_list d ps) = Inr imgs"
  from await_list_Inr[OF this] have "length (map d ps) = length (map Some imgs)" by simp
  then show ?thesis by simp
qed

lemma await_list_rejection:
  "snd (await_list d ps) = Inl e \<Longrightarrow>
     \<exists>n<length ps. fst (await_list d ps) = map Resolved (take n ps) @ [Rejected (ps ! n)]
                  \<and> e = AssetLoadError (ps ! n)"
proof (induction ps)
  case Nil
  then show ?case by simp
next
  case (Cons p ps)
  show ?case
  proof (cases "d p")
    case None
    with Cons.prems have "fst (await_list d (p # ps)) = map Resolved (take 0 (p # ps))
        @ [Rejected ((p # ps) ! 0)] \<and> e = AssetLoadError ((p # ps) ! 0)"
      by simp
    then show ?thesis by blast
  next
    case (Some img)
    with Cons.prems have "snd (await_list d ps) = Inl e"
      by (simp split: sum.splits)
    from Cons.IH[OF this] obtain n where n: "n < length ps"
      "fst (await_list d ps) = map Resolved (take n ps) @ [Rejected (ps ! n)]"
      "e = AssetLoadError (ps ! n)" by blast
    with Some have "Suc n < length (p # ps)
        \<and> fst (await_list d (p # ps)) = map Resolved (take (Suc n) (p # ps))
            @ [Rejected ((p # ps) ! Suc n)]
        \<and> e = AssetLoadError ((p # ps) ! Suc n)"
      by simp
    then show ?thesis by blast
  qed
qed

lemma asset_paths_length: "3 \<le> length (asset_paths opts)"
  by (simp add: asset_paths_cases)

lemma awaited_never_missing:
  assumes "3 \<le> length ps" and "snd (awaited d ps tr) = Inl e"
  shows "snd (await_list d ps) = Inl e"
proof (cases "snd (await_list d ps)")
  case (Inl e')
  with assms(2) show ?thesis by (simp add: awaited_def)
next
  case (Inr imgs)
  from await_list_length[OF Inr] assms(1) have "3 \<le> length imgs" by simp
  then have "nth_opt imgs 0 = Some (imgs ! 0)" "nth_opt imgs 1 = Some (imgs ! 1)"
    "nth_opt imgs 2 = Some (imgs ! 2)"
    by (auto simp: nth_opt_def)
  with assms(2) Inr show ?thesis
    by (simp add: awaited_def assets_record_Some)
qed

lemma awaited_Inr: "snd (awaited d ps tr) = Inr a \<Longrightarrow> \<exists>imgs. snd (await_list d ps) = Inr imgs"
  by (cases "snd (await_list d ps)") (simp_all add: awaited_def)

text \<open>Neither loader returns \<open>MissingAsset\<close>.\<close>

lemma loadAssets_A_result:
  "snd (loadAssets_A d opts w) = Inl e \<Longrightarrow> \<exists>q. e = AssetLoadError q \<and> d q = None"
proof -
  assume e: "snd (loadAssets_A d opts w) = Inl e"
  show ?thesis
  proof (cases "snd (load_loop_A d opts (assets_entries opts) Map.empty w)")
    case (Inl e')
    with e have "e' = e" unfolding loadAssets_A_alt by simp
    with load_loop_A_Inl[OF Inl] show ?thesis by blast
  next
    case (Inr loaded)
    from loadAssets_A_Inr[OF Inr] e show ?thesis by auto
  qed
qed

lemma loadAssets_B_result:
  "snd (loadAssets_B d opts tr) = Inl e \<Longrightarrow> \<exists>q. e = AssetLoadError q \<and> d q = None"
proof -
  assume "snd (loadAssets_B d opts tr) = Inl e"
  then have "snd (await_list d (asset_paths opts)) = Inl e"
    unfolding loadAssets_B_eq by (rule awaited_never_missing[OF asset_paths_length])
  from await_list_Inl[OF this] show ?thesis by blast
qed

lemma one_at_a_time_awaited:
  "one_at_a_time evs \<Longrightarrow> set evs \<subseteq> S \<Longrightarrow>
     list_all (\<lambda>e. case e of LoadImage p \<Rightarrow> Resolved p \<in> S \<or> Rejected p \<in> S | _ \<Rightarrow> True) evs"
  by (induction evs rule: one_at_a_time.induct) simp_all

lemma one_at_a_time_all_awaited: "one_at_a_time evs \<Longrightarrow> all_awaited evs"
  unfolding all_awaited_def by (rule one_at_a_time_awaited) simp_all

lemma settled_no_load: "list_all is_settled evs \<Longrightarrow> filter is_load evs = []"
proof (induction evs)
  case Nil
  show ?case by simp
next
  case (Cons e evs)
  then show ?case by (cases e) simp_all
qed

lemma settled_issued_concurrently:
  "list_all is_settled evs \<Longrightarrow> issued_concurrently (map LoadImage ps @ evs)"
proof (induction ps)
  case Nil
  show ?case
  proof (cases evs)
    case Nil
    then show ?thesis by simp
  next
    case (Cons e es)
    with Nil.prems have "is_settled e" "filter is_load es = []"
      by (simp_all add: settled_no_load)
    with Cons show ?thesis by (cases e) simp_all
  qed
next
  case (Cons p ps)
  then show ?case by simp
qed

lemma resolved_all_awaited: "all_awaited (map LoadImage ps @ map Resolved ps)"
  by (auto simp: all_awaited_def list_all_iff split: event.splits)

lemma uncached_simps:
  "uncached w [] = []"
  "assetsCache w p = None \<Longrightarrow> uncached w (p # ps) = p # uncached w ps"
  "assetsCache w p = Some img \<Longrightarrow> uncached w (p # ps) = uncached w ps"
  by (simp_all add: uncached_def)

lemma uncached_resolved:
  "p \<notin> set ps \<Longrightarrow> uncached (resolved_world w p img) ps = uncached w ps"
  unfolding uncached_def by (rule filter_cong) (auto simp: resolved_world_simps)

lemma load_loop_A_one_by_one:
  "distinct (entry_paths opts es) \<Longrightarrow>
     trace (fst (load_loop_A d opts es l w))
       = trace w @ one_by_one d (uncached w (entry_paths opts es))"
proof (induction es l w rule: load_loop_A_cases[where d = d and opts = opts])
  case (Nil l w)
  show ?case by (simp add: uncached_simps)
next
  case (Cached key v es l w cached)
  then show ?case by (simp add: load_loop_A_cached uncached_simps fun_upd_fold)
next
  case (Rejected key v es l w)
  then show ?case by (simp add: load_loop_A_rejected uncached_simps)
next
  case (Resolved key v es l w img)
  from Resolved(4) have d: "distinct (entry_paths opts es)"
    and n: "asset_path opts v \<notin> set (entry_paths opts es)" by simp_all
  from Resolved(3)[OF d] Resolved(1,2) show ?case
    by (simp add: load_loop_A_resolved uncached_simps uncached_resolved[OF n]
        resolved_world_simps fun_upd_fold)
qed

lemma asset_path_inj: "asset_path opts v = asset_path opts v' \<longleftrightarrow> v = v'"
  by (simp add: asset_path_def)

lemma asset_paths_distinct: "distinct (asset_paths opts)"
  by (cases "displayStartCells opts"; cases "addWatermark opts")
     (simp_all add: asset_paths_cases asset_path_inj)

lemma one_by_one_one_at_a_time: "one_at_a_time (one_by_one d ps)"
  by (induction ps) (simp_all split: option.split)

lemma one_by_one_all_resolved:
  "\<forall>p\<in>set ps. d p \<noteq> None \<Longrightarrow>
     one_by_one d ps = concat (map (\<lambda>p. [LoadImage p, Resolved p]) ps)"
  by (induction ps) auto

lemma uncached_subset: "q \<in> set (uncached w ps) \<longleftrightarrow> q \<in> set ps \<and> assetsCache w q = None"
  by (auto simp: uncached_def)

lemma loadAssets_A_events:
  "trace (fst (loadAssets_A d opts w))
     = trace w @ one_by_one d (uncached w (asset_paths opts))"
  unfolding loadAssets_A_alt fst_conv asset_paths_def
  by (rule load_loop_A_one_by_one) (rule asset_paths_distinct[unfolded asset_paths_def])

lemma loadAssets_A_success_decodes:
  assumes "snd (loadAssets_A d opts w) = Inr a"
  shows "\<forall>p\<in>set (uncached w (asset_paths opts)). d p \<noteq> None"
proof
  fix p assume "p \<in> set (uncached w (asset_paths opts))"
  then have p: "p \<in> set (entry_paths opts (assets_entries opts))" "assetsCache w p = None"
    by (simp_all add: uncached_subset asset_paths_def)
  show "d p \<noteq> None"
  proof
    assume "d p = None"
    from load_loop_A_fails[where d = d, OF p this, of Map.empty]
    obtain e where "snd (load_loop_A d opts (assets_entries opts) Map.empty w) = Inl e" by blast
    with assms show False unfolding loadAssets_A_alt by simp
  qed
qed

text \<open>
  Claim C10 fails in \<^verbatim>\<open>index.ts\<close>, whose loop awaits each load before it issues the
  next: with an empty cache the second load is issued after the first has resolved.
\<close>

theorem loads_not_issued_concurrently:
  "trace (fst (loadAssets_A example_decoder plain_options empty_world))
     = [LoadImage ''assets/areaUnitHigh.png'', Resolved ''assets/areaUnitHigh.png'',
        LoadImage ''assets/grayCell.png'', Resolved ''assets/grayCell.png'',
        LoadImage ''assets/purpleCell.png'', Resolved ''assets/purpleCell.png'']
   \<and> \<not> issued_concurrently
         (trace (fst (loadAssets_A example_decoder plain_options empty_world)))"
proof -
  have "trace (fst (loadAssets_A example_decoder plain_options empty_world))
     = [LoadImage ''assets/areaUnitHigh.png'', Resolved ''assets/areaUnitHigh.png'',
        LoadImage ''assets/grayCell.png'', Resolved ''assets/grayCell.png'',
        LoadImage ''assets/purpleCell.png'', Resolved ''assets/purpleCell.png'']"
    by code_simp
  moreover have "\<not> issued_concurrently
      (trace (fst (loadAssets_A example_decoder plain_options empty_world)))"
    by code_simp
  ultimately show ?thesis by blast
qed

text \<open>
  Claim C10, amended. In \<^verbatim>\<open>index.ts\<close> the events of \<^verbatim>\<open>loadAssets\<close> are exactly the loads
  of the required paths that are not in the cache, one by one in the order of the
  entries: each load is issued, and its \<^verbatim>\<open>await\<close> ends, before the next is issued, and
  the first rejection ends \<^verbatim>\<open>loadAssets\<close>; no load is issued for a cached path. So every
  load that was issued has been awaited to its end when \<^verbatim>\<open>loadAssets\<close> returns, and when
  it returns a record each of these paths was loaded and resolved. In \<^verbatim>\<open>part_000\<close> every
  required load is issued, in the order of the entries, before any is awaited;
  \<^verbatim>\<open>loadAssets\<close> then awaits them in that order: when it returns a record every load has
  been awaited and has resolved, and when it fails it has stopped at the first rejected
  load, the ones before it resolved.
\<close>

theorem load_order:
  "trace (fst (loadAssets_A decode opts w))
     = trace w @ one_by_one decode (uncached w (asset_paths opts))
   \<and> one_at_a_time (one_by_one decode (uncached w (asset_paths opts)))
   \<and> all_awaited (one_by_one decode (uncached w (asset_paths opts)))
   \<and> (\<forall>a. snd (loadAssets_A decode opts w) = Inr a \<longrightarrow>
          one_by_one decode (uncached w (asset_paths opts))
            = concat (map (\<lambda>p. [LoadImage p, Resolved p]) (uncached w (asset_paths opts))))
   \<and> (\<exists>evs. fst (loadAssets_B decode opts tr) = tr @ map LoadImage (asset_paths opts) @ evs
          \<and> list_all is_settled evs
          \<and> issued_concurrently (map LoadImage (asset_paths opts) @ evs)
          \<and> (\<forall>a. snd (loadAssets_B decode opts tr) = Inr a \<longrightarrow>
                 evs = map Resolved (asset_paths opts)
               \<and> all_awaited (map LoadImage (asset_paths opts) @ evs))
          \<and> (\<forall>e. snd (loadAssets_B decode opts tr) = Inl e \<longrightarrow>
                 (\<exists>n<length (asset_paths opts).
                    evs = map Resolved (take n (asset_paths opts)) @ [Rejected (asset_paths opts ! n)]
                    \<and> e = AssetLoadError (asset_paths opts ! n))))"
proof -
  let ?ps = "asset_paths opts"
  let ?seq = "one_by_one decode (uncached w ?ps)"
  have a1: "trace (fst (loadAssets_A decode opts w)) = trace w @ ?seq"
    by (rule loadAssets_A_events)
  have a2: "one_at_a_time ?seq"
    by (rule one_by_one_one_at_a_time)
  have a3: "all_awaited ?seq"
    using a2 by (rule one_at_a_time_all_awaited)
  have a4: "?seq = concat (map (\<lambda>p. [LoadImage p, Resolved p]) (uncached w ?ps))"
    if "snd (loadAssets_A decode opts w) = Inr a" for a
    using loadAssets_A_success_decodes[OF that] by (rule one_by_one_all_resolved)
  let ?evs = "fst (await_list decode ?ps)"
  have tr: "fst (loadAssets_B decode opts tr) = tr @ map LoadImage ?ps @ ?evs"
    unfolding loadAssets_B_eq awaited_def by simp
  have settled: "list_all is_settled ?evs"
    by (rule await_list_settled)
  have conc: "issued_concurrently (map LoadImage ?ps @ ?evs)"
    using settled by (rule settled_issued_concurrently)
  have ok: "?evs = map Resolved ?ps \<and> all_awaited (map LoadImage ?ps @ ?evs)"
    if "snd (loadAssets_B decode opts tr) = Inr a" for a
  proof -
    from that obtain imgs where "snd (await_list decode ?ps) = Inr imgs"
      unfolding loadAssets_B_eq by (blast dest: awaited_Inr)
    from await_list_Inr[OF this] have "?evs = map Resolved ?ps" by simp
    with resolved_all_awaited[of ?ps] show ?thesis by simp
  qed
  have ko: "\<exists>n<length ?ps. ?evs = map Resolved (take n ?ps) @ [Rejected (?ps ! n)]
      \<and> e = AssetLoadError (?ps ! n)"
    if "snd (loadAssets_B decode opts tr) = Inl e" for e
  proof -
    from that have "snd (await_list decode ?ps) = Inl e"
      unfolding loadAssets_B_eq by (rule awaited_never_missing[OF asset_paths_length])
    then show ?thesis by (rule await_list_rejection)
  qed
  from tr settled conc ok ko
  have b: "\<exists>evs. fst (loadAssets_B decode opts tr) = tr @ map LoadImage ?ps @ evs
          \<and> list_all is_settled evs
          \<and> issued_concurrently (map LoadImage ?ps @ evs)
          \<and> (\<forall>a. snd (loadAssets_B decode opts tr) = Inr a \<longrightarrow>
                 evs = map Resolved ?ps \<and> all_awaited (map LoadImage ?ps @ evs))
          \<and> (\<forall>e. snd (loadAssets_B decode opts tr) = Inl e \<longrightarrow>
                 (\<exists>n<length ?ps. evs = map Resolved (take n ?ps) @ [Rejected (?ps ! n)]
                    \<and> e = AssetLoadError (?ps ! n)))"
    by blast
  from a1 a2 a3 a4 b show ?thesis by blast
qed

theorem load_order_witness:
  "uncached gray_cached_world (asset_paths plain_options)
     = [''assets/areaUnitHigh.png'', ''assets/purpleCell.png'']
   \<and> trace (fst (loadAssets_A example_decoder plain_options gray_cached_world))
     = [LoadImage ''assets/areaUnitHigh.png'', Resolved ''assets/areaUnitHigh.png'',
        LoadImage ''assets/purpleCell.png'', Resolved ''assets/purpleCell.png'']
   \<and> trace (fst (loadAssets_A missing_high_decoder plain_options gray_cached_world))
     = [LoadImage ''assets/areaUnitHigh.png'', Rejected ''assets/areaUnitHigh.png'']
   \<and> snd (loadAssets_B example_decoder plain_options []) = Inr plain_assets
   \<and> fst (loadAssets_B example_decoder plain_options [])
     = map LoadImage (asset_paths plain_options) @ map Resolved (asset_paths plain_options)
   \<and> issued_concurrently (fst (loadAssets_B example_decoder plain_options []))
   \<and> all_awaited (fst (loadAssets_B example_decoder plain_options []))
   \<and> asset_paths plain_options
     = [''assets/areaUnitHigh.png'', ''assets/grayCell.png'', ''assets/purpleCell.png'']"
proof -
  have u: "uncached gray_cached_world (asset_paths plain_options)
     = [''assets/areaUnitHigh.png'', ''assets/purpleCell.png'']"
    by code_simp
  have t: "trace gray_cached_world = []"
    by code_simp
  have s1: "one_by_one example_decoder [''assets/areaUnitHigh.png'', ''assets/purpleCell.png'']
     = [LoadImage ''assets/areaUnitHigh.png'', Resolved ''assets/areaUnitHigh.png'',
        LoadImage ''assets/purpleCell.png'', Resolved ''assets/purpleCell.png'']"
    by code_simp
  have s2: "one_by_one missing_high_decoder [''assets/areaUnitHigh.png'', ''assets/purpleCell.png'']
     = [LoadImage ''assets/areaUnitHigh.png'', Rejected ''assets/areaUnitHigh.png'']"
    by code_simp
  have b: "snd (loadAssets_B example_decoder plain_options []) = Inr plain_assets"
    by code_simp
  have p: "asset_paths plain_options
     = [''assets/areaUnitHigh.png'', ''assets/grayCell.png'', ''assets/purpleCell.png'']"
    by code_simp
  from load_order[of example_decoder plain_options gray_cached_world "[]"] u t s1
  have a1: "trace (fst (loadAssets_A example_decoder plain_options gray_cached_world))
     = [LoadImage ''assets/areaUnitHigh.png'', Resolved ''assets/areaUnitHigh.png'',
        LoadImage ''assets/purpleCell.png'', Resolved ''assets/purpleCell.png'']"
    by simp
  from load_order[of missing_high_decoder plain_options gray_cached_world "[]"] u t s2
  have a2: "trace (fst (loadAssets_A missing_high_decoder plain_options gray_cached_world))
     = [LoadImage ''assets/areaUnitHigh.png'', Rejected ''assets/areaUnitHigh.png'']"
    by simp
  from load_order[of example_decoder plain_options gray_cached_world "[]"] b
  have "fst (loadAssets_B example_decoder plain_options [])
     = map LoadImage (asset_paths plain_options) @ map Resolved (asset_paths plain_options)"
    and "issued_concurrently (fst (loadAssets_B example_decoder plain_options []))"
    and "all_awaited (fst (loadAssets_B example_decoder plain_options []))"
    by auto
  with u a1 a2 b p show ?thesis by blast
qed

end
